theory Spec2Isabelle
  imports Complex_Main "HOL-Library.Sublist"
begin

section \<open>Go strings and the library functions the program calls\<close>

text \<open>
  A Go string is a sequence of bytes, here a \<open>char list\<close> (\<open>char\<close> is eight bits).
  The functions of the packages \<open>unicode/utf8\<close>, \<open>unicode\<close> and \<open>strings\<close> that the
  program calls are written out below as Go's library implements them. A rune is a Go
  \<open>int32\<close>; every rune that occurs is a decoded code point, so \<open>int\<close> holds it.
\<close>

type_synonym rune = int

definition byte :: "char \<Rightarrow> nat" where
  "byte c = of_char c"

definition RuneError :: rune where
  "RuneError = 0xFFFD"

text \<open>
  \<open>utf8.DecodeRuneInString\<close>: the first rune of the string and its width in bytes. The
  lead byte fixes the size and the range the second byte must lie in (Go's tables
  \<open>first\<close> and \<open>acceptRanges\<close>); an invalid or truncated sequence is \<open>RuneError\<close> of
  width 1.
\<close>

fun decodeRune :: "string \<Rightarrow> rune \<times> nat" where
  "decodeRune [] = (RuneError, 0)"
| "decodeRune (c0 # cs) =
    (let p0 = byte c0 in
     if p0 < 0x80 then (int p0, 1)
     else if p0 < 0xC2 \<or> 0xF4 < p0 then (RuneError, 1)
     else
       let sz = (if p0 < 0xE0 then 2 else if p0 < 0xF0 then 3 else (4::nat));
           lo = (if p0 = 0xE0 then 0xA0 else if p0 = 0xF0 then 0x90 else 0x80);
           hi = (if p0 = 0xED then 0x9F else if p0 = 0xF4 then 0x8F else 0xBF)
       in
       if length cs + 1 < sz then (RuneError, 1)
       else
         let b1 = byte (cs ! 0) in
         if b1 < lo \<or> hi < b1 then (RuneError, 1)
         else if sz \<le> 2 then (int ((p0 mod 32) * 64 + b1 mod 64), 2)
         else
           let b2 = byte (cs ! 1) in
           if b2 < 0x80 \<or> 0xBF < b2 then (RuneError, 1)
           else if sz \<le> 3 then (int ((p0 mod 16) * 4096 + (b1 mod 64) * 64 + b2 mod 64), 3)
           else
             let b3 = byte (cs ! 2) in
             if b3 < 0x80 \<or> 0xBF < b3 then (RuneError, 1)
             else (int ((p0 mod 8) * 262144 + (b1 mod 64) * 4096 + (b2 mod 64) * 64
                        + b3 mod 64), 4))"

text \<open>\<open>utf8.RuneStart\<close>: the byte is not a continuation byte \<open>10xxxxxx\<close>.\<close>

definition RuneStart :: "char \<Rightarrow> bool" where
  "RuneStart c = (byte c < 0x80 \<or> 0xC0 \<le> byte c)"

text \<open>
  \<open>utf8.DecodeLastRuneInString\<close>: the last rune of the string and its width. It walks
  back at most \<open>UTFMax = 4\<close> bytes to a rune start, decodes forward from there, and
  answers \<open>RuneError\<close> of width 1 unless that rune ends exactly at the end.
\<close>

definition lastRuneStart :: "string \<Rightarrow> nat" where
  "lastRuneStart s =
    (let e = length s in
     if 2 \<le> e \<and> RuneStart (s ! (e - 2)) then e - 2
     else if 3 \<le> e \<and> RuneStart (s ! (e - 3)) then e - 3
     else if 4 \<le> e \<and> RuneStart (s ! (e - 4)) then e - 4
     else e - 5)"

definition decodeLastRune :: "string \<Rightarrow> rune \<times> nat" where
  "decodeLastRune s =
    (if s = [] then (RuneError, 0)
     else if byte (last s) < 0x80 then (int (byte (last s)), 1)
     else
       let start = lastRuneStart s in
       case decodeRune (drop start s) of
         (r, w) \<Rightarrow> if start + w \<noteq> length s then (RuneError, 1) else (r, w))"

text \<open>
  \<open>utf8.AppendRune\<close>, for a rune that is not negative: an invalid rune (a surrogate, or
  one above \<open>MaxRune\<close>) is written as \<open>RuneError\<close>.
\<close>

definition encodeRune :: "rune \<Rightarrow> string" where
  "encodeRune r =
    (if r \<le> 0x7F then [char_of r]
     else if r \<le> 0x7FF then [char_of (0xC0 + r div 64), char_of (0x80 + r mod 64)]
     else if 0x10FFFF < r \<or> (0xD800 \<le> r \<and> r \<le> 0xDFFF) then [CHR 0xEF, CHR 0xBF, CHR 0xBD]
     else if r \<le> 0xFFFF then
       [char_of (0xE0 + r div 4096), char_of (0x80 + (r div 64) mod 64), char_of (0x80 + r mod 64)]
     else
       [char_of (0xF0 + r div 262144), char_of (0x80 + (r div 4096) mod 64),
        char_of (0x80 + (r div 64) mod 64), char_of (0x80 + r mod 64)])"

text \<open>The runes a \<open>for _, c := range s\<close> loop visits.\<close>

fun runes :: "string \<Rightarrow> rune list" where
  "runes [] = []"
| "runes (c # cs) = (case decodeRune (c # cs) of (r, w) \<Rightarrow> r # runes (drop (w - 1) cs))"

text \<open>
  \<open>strings.Map\<close>: every rune of the string is replaced by its image, written in UTF-8; a
  negative image is dropped.
\<close>

definition stringsMap :: "(rune \<Rightarrow> rune) \<Rightarrow> string \<Rightarrow> string" where
  "stringsMap mapping s =
    concat (map (\<lambda>c. let r = mapping c in if 0 \<le> r then encodeRune r else []) (runes s))"

text \<open>
  \<open>unicode.IsSpace\<close>: the Latin-1 cases of its switch, and the \<open>White_Space\<close> ranges above
  Latin-1.
\<close>

definition IsSpace :: "rune \<Rightarrow> bool" where
  "IsSpace r =
    (r = 0x09 \<or> r = 0x0A \<or> r = 0x0B \<or> r = 0x0C \<or> r = 0x0D \<or> r = 0x20 \<or> r = 0x85
     \<or> r = 0xA0 \<or> r = 0x1680 \<or> (0x2000 \<le> r \<and> r \<le> 0x200A) \<or> r = 0x2028 \<or> r = 0x2029
     \<or> r = 0x202F \<or> r = 0x205F \<or> r = 0x3000)"

text \<open>
  \<open>strings.TrimLeftFunc\<close> and \<open>strings.TrimRightFunc\<close>: runes are taken off the front
  (decoded forwards) and off the back (decoded backwards) while the predicate holds.
\<close>

fun TrimLeftFunc :: "(rune \<Rightarrow> bool) \<Rightarrow> string \<Rightarrow> string" where
  "TrimLeftFunc f [] = []"
| "TrimLeftFunc f (c # cs) =
    (case decodeRune (c # cs) of
       (r, w) \<Rightarrow> if f r then TrimLeftFunc f (drop (w - 1) cs) else c # cs)"

function TrimRightFunc :: "(rune \<Rightarrow> bool) \<Rightarrow> string \<Rightarrow> string" where
  "TrimRightFunc f s =
    (if s = [] then []
     else case decodeLastRune s of
       (r, w) \<Rightarrow> if f r then TrimRightFunc f (take (length s - w) (butlast s)) else s)"
  by pat_completeness auto
termination
  by (relation "measure (\<lambda>(f, s). length s)") (auto simp: min_less_iff_disj)

text \<open>
  \<open>strings.TrimSpace\<close>. Go first skips ASCII white space bytewise and then calls the two
  functions above; the bytewise loop removes the same bytes as they do.
\<close>

definition TrimSpace :: "string \<Rightarrow> string" where
  "TrimSpace s = TrimRightFunc IsSpace (TrimLeftFunc IsSpace s)"

text \<open>
  \<open>strings.ToLower\<close>: a string of ASCII bytes is lowered bytewise; any other string goes
  through \<open>strings.Map\<close> with \<open>unicode.ToLower\<close>. For a rune above ASCII \<open>unicode.ToLower\<close>
  consults the table \<open>unicode.CaseRanges\<close> of the Go distribution, which is the parameter
  \<open>tbl\<close> here.
\<close>

definition asciiLower :: "char \<Rightarrow> char" where
  "asciiLower c = (if 0x41 \<le> byte c \<and> byte c \<le> 0x5A then char_of (byte c + 0x20) else c)"

definition unicodeToLower :: "(rune \<Rightarrow> rune) \<Rightarrow> rune \<Rightarrow> rune" where
  "unicodeToLower tbl r =
    (if r \<le> 0x7F then (if 0x41 \<le> r \<and> r \<le> 0x5A then r + 0x20 else r) else tbl r)"

definition isASCII :: "string \<Rightarrow> bool" where
  "isASCII s = list_all (\<lambda>c. byte c < 0x80) s"

definition ToLower :: "(rune \<Rightarrow> rune) \<Rightarrow> string \<Rightarrow> string" where
  "ToLower tbl s = (if isASCII s then map asciiLower s else stringsMap (unicodeToLower tbl) s)"

section \<open>The extractor package: ffmpeg arguments\<close>

text \<open>\<open>codecAndQualityArgs\<close> of \<open>internal/extractor/extractor.go\<close>.\<close>

definition codecAndQualityArgs :: "(rune \<Rightarrow> rune) \<Rightarrow> string \<Rightarrow> string \<Rightarrow> string list" where
  "codecAndQualityArgs tbl format0 quality0 =
    (let format1 = ToLower tbl (TrimSpace format0);
         quality = ToLower tbl (TrimSpace quality0);
         format = (if format1 = '''' then ''mp3'' else format1);
         args = [''-f'', format]
     in
     if format = ''mp3'' then
       args @ [''-codec:a'', ''libmp3lame''] @
         (if quality = ''low'' then [''-b:a'', ''96k'']
          else if quality = ''high'' then [''-b:a'', ''320k'']
          else if quality = ''original'' then [''-q:a'', ''0'']
          else [''-b:a'', ''192k''])
     else if format = ''wav'' then
       args @ [''-codec:a'', ''pcm_s16le'']
     else if format = ''aac'' then
       args @ [''-codec:a'', ''aac''] @
         (if quality = ''low'' then [''-b:a'', ''96k'']
          else if quality = ''high'' then [''-b:a'', ''320k'']
          else if quality = ''original'' then [''-b:a'', ''384k'']
          else [''-b:a'', ''192k''])
     else if format = ''flac'' then
       args @ [''-codec:a'', ''flac''] @
         (if quality = ''high'' \<or> quality = ''original'' then [''-compression_level'', ''12'']
          else [''-compression_level'', ''8''])
     else if format = ''ogg'' then
       args @ [''-codec:a'', ''libvorbis''] @
         (if quality = ''low'' then [''-qscale:a'', ''2'']
          else if quality = ''high'' \<or> quality = ''original'' then [''-qscale:a'', ''8'']
          else [''-qscale:a'', ''5''])
     else [''-codec:a'', ''copy''])"

section \<open>The models package\<close>

text \<open>
  \<open>JobStatus\<close> is a string type in Go; the program only ever stores its six constants.
  A \<open>time.Time\<close> is an instant on one clock, counted in nanoseconds, and a
  \<open>time.Duration\<close> a number of nanoseconds.
\<close>

datatype JobStatus =
  StatusNotStarted | StatusUploaded | StatusQueued | StatusProcessing | StatusCompleted
  | StatusFailed

type_synonym time = int

record ExtractionJob =
  ID :: string
  InputFileName :: string
  InputPath :: string
  OutputPath :: string
  OutputName :: string
  Format :: string
  Quality :: string
  Status :: JobStatus
  Progress :: int
  Error :: string
  TranscriptStatus :: JobStatus
  TranscriptProgress :: int
  TranscriptError :: string
  TranscriptTXTPath :: string
  TranscriptTXTName :: string
  TranscriptSRTPath :: string
  TranscriptSRTName :: string
  CreatedAt :: time
  UpdatedAt :: time

text \<open>
  \<open>ProgressEvent\<close>; its fields carry the prefix \<open>Ev\<close> here, since \<open>ID\<close>, \<open>Status\<close>,
  \<open>Progress\<close> and \<open>Error\<close> already name fields of the job.
\<close>

record ProgressEvent =
  EvID :: string
  EvStage :: string
  EvStatus :: JobStatus
  EvProgress :: int
  EvMessage :: string
  EvDownloadURL :: string
  EvTranscriptTXTURL :: string
  EvTranscriptSRTURL :: string
  EvError :: string

text \<open>
  An event literal of the program names some fields and leaves the others at their zero
  value. Every literal names \<open>Status\<close> and \<open>Progress\<close>, so the status written here is
  always overwritten.
\<close>

definition emptyEvent :: ProgressEvent where
  "emptyEvent =
    \<lparr>EvID = '''', EvStage = '''', EvStatus = StatusNotStarted, EvProgress = 0, EvMessage = '''',
     EvDownloadURL = '''', EvTranscriptTXTURL = '''', EvTranscriptSRTURL = '''', EvError = ''''\<rparr>"

section \<open>The handlers package: the registry and the stage triggers\<close>

text \<open>
  The registry is the map \<open>a.jobs\<close>. Every access happens under the lock \<open>a.mu\<close>, so
  each function below is one atomic step on the map. \<open>getJob\<close> hands out a copy of the
  entry and \<open>updateJob\<close> applies a function to the entry when it exists.
\<close>

type_synonym registry = "string \<rightharpoonup> ExtractionJob"

definition getJob :: "registry \<Rightarrow> string \<Rightarrow> ExtractionJob option" where
  "getJob jobs jobID = jobs jobID"

definition updateJob :: "string \<Rightarrow> (ExtractionJob \<Rightarrow> ExtractionJob) \<Rightarrow> registry \<Rightarrow> registry" where
  "updateJob jobID fn jobs =
    (case jobs jobID of None \<Rightarrow> jobs | Some job \<Rightarrow> jobs(jobID \<mapsto> fn job))"

text \<open>
  What a handler writes: \<open>http.Error\<close> with a text and a status code, or \<open>respondJSON\<close>
  with a status code and a \<open>map[string]string\<close>, given as its key-value pairs.
\<close>

datatype response =
  HttpError string nat
  | RespondJSON nat "(string \<times> string) list"

text \<open>
  The outcome of a trigger: the response, the registry afterwards, the events handed to
  \<open>broadcast\<close>, and whether the worker goroutine is started.
\<close>

record outcome =
  response :: response
  registry :: registry
  events :: "ProgressEvent list"
  worker :: bool

definition msgJobNotFound :: string where
  "msgJobNotFound = ''job n'' @ [CHR 0xC3, CHR 0xA3] @ ''o encontrado''"

definition msgExtractionNotDone :: string where
  "msgExtractionNotDone =
    ''extra'' @ [CHR 0xC3, CHR 0xA7, CHR 0xC3, CHR 0xA3] @ ''o ainda n''
    @ [CHR 0xC3, CHR 0xA3] @ ''o foi conclu'' @ [CHR 0xC3, CHR 0xAD] @ ''da''"

text \<open>\<open>startExtraction\<close>; \<open>now\<close> is the value of \<open>time.Now()\<close>.\<close>

definition startExtraction :: "time \<Rightarrow> string \<Rightarrow> registry \<Rightarrow> outcome" where
  "startExtraction now jobID jobs =
    (case jobs jobID of
       None \<Rightarrow>
         \<lparr>response = HttpError msgJobNotFound 404, registry = jobs, events = [], worker = False\<rparr>
     | Some job \<Rightarrow>
         if Status job = StatusProcessing \<or> Status job = StatusQueued then
           \<lparr>response = RespondJSON 202 [(''status'', ''already_processing'')],
            registry = jobs, events = [], worker = False\<rparr>
         else if Status job = StatusCompleted then
           \<lparr>response = RespondJSON 200
              [(''status'', ''already_completed''), (''download_url'', ''/download/'' @ ID job)],
            registry = jobs, events = [], worker = False\<rparr>
         else
           \<lparr>response = RespondJSON 202 [(''status'', ''started''), (''job_id'', jobID)],
            registry = jobs(jobID \<mapsto>
              job\<lparr>Status := StatusQueued, Progress := 1, Error := '''',
                  TranscriptStatus := StatusNotStarted, TranscriptProgress := 0,
                  TranscriptError := '''', TranscriptTXTPath := '''', TranscriptTXTName := '''',
                  TranscriptSRTPath := '''', TranscriptSRTName := '''', UpdatedAt := now\<rparr>),
            events =
              [emptyEvent\<lparr>EvID := jobID, EvStage := ''extraction'', EvStatus := StatusQueued,
                 EvProgress := 1, EvMessage := ''job em fila''\<rparr>],
            worker = True\<rparr>)"

text \<open>\<open>startTranscription\<close>.\<close>

definition startTranscription :: "time \<Rightarrow> string \<Rightarrow> registry \<Rightarrow> outcome" where
  "startTranscription now jobID jobs =
    (case jobs jobID of
       None \<Rightarrow>
         \<lparr>response = HttpError msgJobNotFound 404, registry = jobs, events = [], worker = False\<rparr>
     | Some job \<Rightarrow>
         if Status job \<noteq> StatusCompleted then
           \<lparr>response = HttpError msgExtractionNotDone 409,
            registry = jobs, events = [], worker = False\<rparr>
         else if TranscriptStatus job = StatusQueued \<or> TranscriptStatus job = StatusProcessing then
           \<lparr>response = RespondJSON 202 [(''status'', ''transcription_already_processing'')],
            registry = jobs, events = [], worker = False\<rparr>
         else if TranscriptStatus job = StatusCompleted then
           \<lparr>response = RespondJSON 200
              [(''status'', ''transcription_already_completed''),
               (''transcript_txt_url'', ''/transcript/'' @ jobID @ ''?format=txt''),
               (''transcript_srt_url'', ''/transcript/'' @ jobID @ ''?format=srt'')],
            registry = jobs, events = [], worker = False\<rparr>
         else
           \<lparr>response = RespondJSON 202
              [(''status'', ''transcription_started''), (''job_id'', jobID)],
            registry = jobs(jobID \<mapsto>
              job\<lparr>TranscriptStatus := StatusQueued, TranscriptProgress := 1,
                  TranscriptError := '''', UpdatedAt := now\<rparr>),
            events =
              [emptyEvent\<lparr>EvID := jobID, EvStage := ''transcription'', EvStatus := StatusQueued,
                 EvProgress := 1,
                 EvMessage := ''transcri'' @ [CHR 0xC3, CHR 0xA7, CHR 0xC3, CHR 0xA3]
                              @ ''o em fila''\<rparr>],
            worker = True\<rparr>)"

section \<open>The handlers package: the reaper\<close>

text \<open>
  \<open>cleanup\<close>. The loop \<open>for id, job := range a.jobs\<close> visits the keys of the map in an
  order Go leaves open; \<open>order\<close> is that order. \<open>UpdatedAt.Before(cutoff)\<close> is \<open><\<close> on
  instants. The result is the registry afterwards and the paths handed to \<open>os.Remove\<close>,
  in the order of the calls.
\<close>

fun cleanupScan ::
  "time \<Rightarrow> string list \<Rightarrow> registry \<Rightarrow> ExtractionJob list \<Rightarrow> registry \<times> ExtractionJob list"
where
  "cleanupScan cutoff [] jobs oldJobs = (jobs, oldJobs)"
| "cleanupScan cutoff (k # ks) jobs oldJobs =
    (case jobs k of
       None \<Rightarrow> cleanupScan cutoff ks jobs oldJobs
     | Some job \<Rightarrow>
         if UpdatedAt job < cutoff
         then cleanupScan cutoff ks (jobs(k := None)) (oldJobs @ [job])
         else cleanupScan cutoff ks jobs oldJobs)"

definition jobFiles :: "ExtractionJob \<Rightarrow> string list" where
  "jobFiles job =
    (if InputPath job \<noteq> '''' then [InputPath job] else [])
    @ (if OutputPath job \<noteq> '''' then [OutputPath job] else [])
    @ (if TranscriptTXTPath job \<noteq> '''' then [TranscriptTXTPath job] else [])
    @ (if TranscriptSRTPath job \<noteq> '''' then [TranscriptSRTPath job] else [])"

definition cleanup :: "time \<Rightarrow> time \<Rightarrow> string list \<Rightarrow> registry \<Rightarrow> registry \<times> string list" where
  "cleanup now ttl order jobs =
    (let cutoff = now - ttl in
     case cleanupScan cutoff order jobs [] of
       (jobs', oldJobs) \<Rightarrow> (jobs', concat (map jobFiles oldJobs)))"

section \<open>The extractor package: errors, progress callbacks and the two adapters\<close>

text \<open>
  The error values that occur: the two sentinels of package \<open>context\<close>, the exit error
  of a child process (\<open>*exec.ExitError\<close>, with its text), an error that is only a text
  (\<open>errors.New\<close>, or \<open>fmt.Errorf\<close> with \<open>%s\<close>), and \<open>fmt.Errorf\<close> with \<open>%w\<close>, which
  wraps an error behind a prefix.
\<close>

datatype goerr =
  Canceled
  | DeadlineExceeded
  | ExitError string
  | ErrorString string
  | Wrap string goerr

fun errorText :: "goerr \<Rightarrow> string" where
  "errorText Canceled = ''context canceled''"
| "errorText DeadlineExceeded = ''context deadline exceeded''"
| "errorText (ExitError s) = s"
| "errorText (ErrorString s) = s"
| "errorText (Wrap p e) = p @ errorText e"

text \<open>\<open>errors.Is\<close> against a sentinel: the error or one it wraps is the sentinel.\<close>

fun unwraps :: "goerr \<Rightarrow> goerr \<Rightarrow> bool" where
  "unwraps (Wrap p e) target = unwraps e target"
| "unwraps e target = (e = target)"

definition errorsIs :: "goerr option \<Rightarrow> goerr \<Rightarrow> bool" where
  "errorsIs err target = (case err of None \<Rightarrow> False | Some e \<Rightarrow> unwraps e target)"

text \<open>
  A \<open>float64\<close>: a finite value, an infinity or NaN. The sign of zero is left out: the
  program divides by no zero and no comparison or conversion tells the two zeros apart.
\<close>

datatype float64 = Finite real | PosInf | NegInf | NaN

text \<open>
  The rounding of IEEE 754 binary64 arithmetic, to nearest with ties to even: the exact
  result is rounded to a multiple of \<open>2 ^ (e - 52)\<close>, where \<open>2 ^ e\<close> is the greatest
  power of two not above its magnitude and \<open>e\<close> is at least -1022 (below that the
  values are subnormal); a result that reaches \<open>2 ^ 1024\<close> is an infinity.
\<close>

fun bitLen :: "nat \<Rightarrow> nat" where
  "bitLen n = (if n = 0 then 0 else Suc (bitLen (n div 2)))"

definition pow2 :: "int \<Rightarrow> real" where
  "pow2 k = (if 0 \<le> k then 2 ^ nat k else 1 / 2 ^ nat (- k))"

definition exponent :: "real \<Rightarrow> int" where
  "exponent a =
    (if 1 \<le> a then int (bitLen (nat \<lfloor>a\<rfloor>)) - 1
     else - int (bitLen (nat (\<lceil>1 / a\<rceil> - 1))))"

definition roundHalfEven :: "real \<Rightarrow> int" where
  "roundHalfEven t =
    (let f = \<lfloor>t\<rfloor>; d = t - of_int f in
     if d < 1 / 2 then f else if 1 / 2 < d then f + 1 else if even f then f else f + 1)"

definition round64 :: "real \<Rightarrow> float64" where
  "round64 x =
    (if x = 0 then Finite 0
     else
       let e = max (exponent \<bar>x\<bar>) (- 1022);
           n = roundHalfEven (x / pow2 (e - 52))
       in if 1023 < e \<or> (e = 1023 \<and> 2 ^ 53 \<le> \<bar>n\<bar>) then (if 0 < x then PosInf else NegInf)
          else Finite (of_int n * pow2 (e - 52)))"

text \<open>The quotient \<open>x / y\<close> and the product \<open>x * y\<close>.\<close>

fun fdiv :: "float64 \<Rightarrow> float64 \<Rightarrow> float64" where
  "fdiv (Finite a) (Finite b) =
    (if b = 0 then (if a = 0 then NaN else if 0 < a then PosInf else NegInf)
     else round64 (a / b))"
| "fdiv (Finite a) PosInf = Finite 0"
| "fdiv (Finite a) NegInf = Finite 0"
| "fdiv PosInf (Finite b) = (if 0 \<le> b then PosInf else NegInf)"
| "fdiv NegInf (Finite b) = (if 0 \<le> b then NegInf else PosInf)"
| "fdiv _ _ = NaN"

fun fmul :: "float64 \<Rightarrow> float64 \<Rightarrow> float64" where
  "fmul (Finite a) (Finite b) = round64 (a * b)"
| "fmul NaN _ = NaN"
| "fmul _ NaN = NaN"
| "fmul (Finite a) PosInf = (if a = 0 then NaN else if 0 < a then PosInf else NegInf)"
| "fmul (Finite a) NegInf = (if a = 0 then NaN else if 0 < a then NegInf else PosInf)"
| "fmul PosInf (Finite b) = (if b = 0 then NaN else if 0 < b then PosInf else NegInf)"
| "fmul NegInf (Finite b) = (if b = 0 then NaN else if 0 < b then NegInf else PosInf)"
| "fmul PosInf PosInf = PosInf"
| "fmul NegInf NegInf = PosInf"
| "fmul PosInf NegInf = NegInf"
| "fmul NegInf PosInf = NegInf"

text \<open>The comparison \<open>x < y\<close>; it is false when either side is NaN.\<close>

fun flt :: "float64 \<Rightarrow> float64 \<Rightarrow> bool" where
  "flt NaN _ = False"
| "flt _ NaN = False"
| "flt (Finite a) (Finite b) = (a < b)"
| "flt PosInf _ = False"
| "flt _ NegInf = False"
| "flt NegInf _ = True"
| "flt _ PosInf = True"

text \<open>
  The conversion \<open>int(x)\<close>. A finite value is truncated towards zero. Go leaves the
  result open when the value does not fit; the program is built for \<open>GOARCH=amd64\<close>
  (Dockerfile), where the conversion instruction then gives the least \<open>int64\<close>.
\<close>

definition truncToZero :: "real \<Rightarrow> int" where
  "truncToZero x = (if 0 \<le> x then \<lfloor>x\<rfloor> else \<lceil>x\<rceil>)"

definition float64ToInt :: "float64 \<Rightarrow> int" where
  "float64ToInt x =
    (case x of
       Finite r \<Rightarrow>
         (let t = truncToZero r in if - (2 ^ 63) \<le> t \<and> t < 2 ^ 63 then t else - (2 ^ 63))
     | _ \<Rightarrow> - (2 ^ 63))"

text \<open>A call of the \<open>ProgressCallback\<close>: percent, status, message.\<close>

type_synonym callback = "int \<times> string \<times> string"

text \<open>
  \<open>strings.Split(v, "\n")\<close>, \<open>strings.HasPrefix\<close> is \<open>prefix\<close>, and \<open>compactLogLine\<close>: the
  lines are visited from the last to the first.
\<close>

fun splitLines :: "string \<Rightarrow> string list" where
  "splitLines [] = [[]]"
| "splitLines (c # cs) =
    (if c = CHR 0x0A then [] # splitLines cs
     else case splitLines cs of [] \<Rightarrow> [[c]] | l # ls \<Rightarrow> (c # l) # ls)"

fun compactScan :: "string list \<Rightarrow> string" where
  "compactScan [] = ''unknown whisper error''"
| "compactScan (l # ls) =
    (let line = TrimSpace l in
     if line \<noteq> '''' then (if 220 < length line then take 220 line @ ''...'' else line)
     else compactScan ls)"

definition compactLogLine :: "string \<Rightarrow> string" where
  "compactLogLine v = compactScan (rev (splitLines v))"

text \<open>
  What \<open>ExtractAudio\<close> meets when it runs ffmpeg: the duration \<open>probeDuration\<close> returned
  (0 when the probe failed), the errors of the two pipes and of \<open>cmd.Start\<close>, the lines
  the scanner of standard output yields and the scanner's error, the result of
  \<open>cmd.Wait\<close>, the value of \<open>ctx.Err()\<close> after it, and the lines of standard error the
  other goroutine has scanned by then.
\<close>

record ffmpegRun =
  probedDuration :: float64
  stdoutPipeErr :: "goerr option"
  stderrPipeErr :: "goerr option"
  startErr :: "goerr option"
  stdoutLines :: "string list"
  scanErr :: "goerr option"
  waitErr :: "goerr option"
  ctxErr :: "goerr option"
  stderrLines :: "string list"

text \<open>The goroutine over standard error: the last line that is not blank.\<close>

fun scanStderr :: "string \<Rightarrow> string list \<Rightarrow> string" where
  "scanStderr lastErrLine [] = lastErrLine"
| "scanStderr lastErrLine (l # ls) =
    (let line = TrimSpace l in scanStderr (if line \<noteq> '''' then line else lastErrLine) ls)"

text \<open>
  The percent of one \<open>out_time_ms\<close> marker, and the loop over standard output.
  \<open>ParseFloat\<close> is \<open>strconv.ParseFloat(_, 64)\<close>, \<open>None\<close> when it returns an error.
\<close>

definition markerPercent :: "float64 \<Rightarrow> float64 \<Rightarrow> int" where
  "markerPercent duration outMs =
    (let currentSeconds = fdiv outMs (Finite 1000000);
         ratio = fdiv currentSeconds duration;
         ratio1 = (if flt ratio (Finite 0) then Finite 0 else ratio);
         ratio2 = (if flt (Finite 1) ratio1 then Finite 1 else ratio1)
     in float64ToInt (fmul ratio2 (Finite 100)))"

definition msgExtracting :: string where
  "msgExtracting = ''extraindo '' @ [CHR 0xC3, CHR 0xA1] @ ''udio''"

fun scanStdout :: "(string \<Rightarrow> float64 option) \<Rightarrow> float64 \<Rightarrow> string list \<Rightarrow> callback list" where
  "scanStdout ParseFloat duration [] = []"
| "scanStdout ParseFloat duration (l # ls) =
    (let line = TrimSpace l in
     if line = '''' then scanStdout ParseFloat duration ls
     else
       (if prefix ''out_time_ms='' line \<and> flt (Finite 0) duration then
          (case ParseFloat (drop (length ''out_time_ms='') line) of
             None \<Rightarrow> []
           | Some outMs \<Rightarrow> [(markerPercent duration outMs, ''processing'', msgExtracting)])
        else [])
       @ (if prefix ''progress=end'' line then [(100, ''processing'', ''finalizando arquivo'')]
          else [])
       @ scanStdout ParseFloat duration ls)"

text \<open>
  \<open>ExtractAudio\<close>: the callbacks it makes, in order, and the error it returns (\<open>None\<close>
  is \<open>nil\<close>). The callback is never \<open>nil\<close> in this program.
\<close>

definition msgExtractionStart :: string where
  "msgExtractionStart = ''iniciando extra'' @ [CHR 0xC3, CHR 0xA7, CHR 0xC3, CHR 0xA3] @ ''o''"

definition msgExtractionDone :: string where
  "msgExtractionDone =
    ''extra'' @ [CHR 0xC3, CHR 0xA7, CHR 0xC3, CHR 0xA3] @ ''o conclu'' @ [CHR 0xC3, CHR 0xAD]
    @ ''da''"

definition ExtractAudio ::
  "(string \<Rightarrow> float64 option) \<Rightarrow> ffmpegRun \<Rightarrow> callback list \<times> goerr option"
where
  "ExtractAudio ParseFloat run =
    (case stdoutPipeErr run of
       Some e \<Rightarrow> ([], Some (Wrap ''failed to create ffmpeg stdout pipe: '' e))
     | None \<Rightarrow>
    (case stderrPipeErr run of
       Some e \<Rightarrow> ([], Some (Wrap ''failed to create ffmpeg stderr pipe: '' e))
     | None \<Rightarrow>
    (let cb0 = [(0, ''processing'', msgExtractionStart)] in
     case startErr run of
       Some e \<Rightarrow> (cb0, Some (Wrap ''failed to start ffmpeg: '' e))
     | None \<Rightarrow>
    (let cbs = cb0 @ scanStdout ParseFloat (probedDuration run) (stdoutLines run);
         lastErrLine = scanStderr '''' (stderrLines run)
     in
     case scanErr run of
       Some e \<Rightarrow> (cbs, Some (Wrap ''failed while reading ffmpeg output: '' e))
     | None \<Rightarrow>
    (case waitErr run of
       Some e \<Rightarrow>
         if errorsIs (ctxErr run) Canceled then (cbs, ctxErr run)
         else if lastErrLine \<noteq> '''' then
           (cbs, Some (ErrorString (''ffmpeg failed: '' @ lastErrLine)))
         else (cbs, Some (Wrap ''ffmpeg failed: '' e))
     | None \<Rightarrow> (cbs @ [(100, ''completed'', msgExtractionDone)], None))))))"

text \<open>
  What \<open>TranscribeAudio\<close> meets: the error of \<open>cmd.Start\<close>, the cases its \<open>select\<close> takes
  one after the other, and what the process had written to the shared buffer of
  standard output and standard error when it exited.
\<close>

datatype selectCase =
  CtxDone goerr
  | ProcDone "goerr option"
  | Tick

record whisperRun =
  whisperStartErr :: "goerr option"
  selects :: "selectCase list"
  buffer :: string

definition msgTranscribing :: string where
  "msgTranscribing = ''transcrevendo '' @ [CHR 0xC3, CHR 0xA1] @ ''udio''"

definition msgTranscriptionStart :: string where
  "msgTranscriptionStart =
    ''iniciando transcri'' @ [CHR 0xC3, CHR 0xA7, CHR 0xC3, CHR 0xA3] @ ''o''"

definition msgTranscriptionDone :: string where
  "msgTranscriptionDone =
    ''transcri'' @ [CHR 0xC3, CHR 0xA7, CHR 0xC3, CHR 0xA3] @ ''o conclu''
    @ [CHR 0xC3, CHR 0xAD] @ ''da''"

text \<open>
  The \<open>for { select { ... } }\<close> loop. It returns when the context is done or the process
  has exited; on a list of cases that ends before either, it has not returned, which is
  the result \<open>None\<close>. \<open>Some None\<close> is the return of \<open>nil\<close>.
\<close>

fun transcribeLoop :: "string \<Rightarrow> int \<Rightarrow> selectCase list \<Rightarrow> callback list \<times> goerr option option"
where
  "transcribeLoop out progress [] = ([], None)"
| "transcribeLoop out progress (CtxDone e # rest) = ([], Some (Some e))"
| "transcribeLoop out progress (ProcDone (Some e) # rest) =
    (let logOut = TrimSpace out in
     if logOut \<noteq> '''' then
       ([], Some (Some (ErrorString (''whisper-cli failed: '' @ compactLogLine logOut))))
     else ([], Some (Some (Wrap ''whisper-cli failed: '' e))))"
| "transcribeLoop out progress (ProcDone None # rest) =
    ([(100, ''completed'', msgTranscriptionDone)], Some None)"
| "transcribeLoop out progress (Tick # rest) =
    (let progress' = (if progress < 90 then progress + 7 else progress) in
     case transcribeLoop out progress' rest of
       (cbs, r) \<Rightarrow> ((progress', ''processing'', msgTranscribing) # cbs, r))"

text \<open>\<open>TranscribeAudio\<close>, for the configured model path \<open>whisperModel\<close>.\<close>

definition TranscribeAudio :: "string \<Rightarrow> whisperRun \<Rightarrow> callback list \<times> goerr option option" where
  "TranscribeAudio whisperModel run =
    (if whisperModel = '''' then ([], Some (Some (ErrorString ''whisper model is not configured'')))
     else
       let cb0 = [(1, ''processing'', msgTranscriptionStart)] in
       case whisperStartErr run of
         Some e \<Rightarrow> (cb0, Some (Some (Wrap ''failed to start whisper-cli: '' e)))
       | None \<Rightarrow>
           (case transcribeLoop (buffer run) 5 (selects run) of
              (cbs, r) \<Rightarrow> (cb0 @ cbs, r)))"

section \<open>The handlers package: sanitizing the upload form\<close>

text \<open>
  \<open>filepath.Base\<close> on Linux (the separator is \<open>/\<close> and there is no volume name),
  \<open>strings.ReplaceAll(name, " ", "_")\<close> and \<open>strings.TrimPrefix\<close>.
\<close>

definition Base :: "string \<Rightarrow> string" where
  "Base path =
    (if path = '''' then ''.''
     else
       let stripped = rev (dropWhile (\<lambda>c. c = CHR ''/'') (rev path));
           element = rev (takeWhile (\<lambda>c. c \<noteq> CHR ''/'') (rev stripped))
       in if element = '''' then ''/'' else element)"

definition ReplaceSpaces :: "string \<Rightarrow> string" where
  "ReplaceSpaces s = map (\<lambda>c. if c = CHR '' '' then CHR ''_'' else c) s"

definition TrimPrefix :: "string \<Rightarrow> string \<Rightarrow> string" where
  "TrimPrefix s p = (if prefix p s then drop (length p) s else s)"

text \<open>The function \<open>sanitizeFileName\<close> hands to \<open>strings.Map\<close>, and \<open>sanitizeFileName\<close>.\<close>

definition keepRune :: "rune \<Rightarrow> rune" where
  "keepRune r =
    (if (0x61 \<le> r \<and> r \<le> 0x7A) \<or> (0x41 \<le> r \<and> r \<le> 0x5A) \<or> (0x30 \<le> r \<and> r \<le> 0x39)
        \<or> r = 0x2E \<or> r = 0x5F \<or> r = 0x2D
     then r else 0x5F)"

definition sanitizeFileName :: "string \<Rightarrow> string" where
  "sanitizeFileName name0 =
    (let name1 = Base (TrimSpace name0);
         name2 = ReplaceSpaces name1;
         name3 = stringsMap keepRune name2
     in if name3 = '''' then ''video.bin'' else name3)"

definition supportedFormats :: "string list" where
  "supportedFormats = [''mp3'', ''wav'', ''aac'', ''flac'', ''ogg'']"

definition supportedQualities :: "string list" where
  "supportedQualities = [''low'', ''medium'', ''high'', ''original'']"

definition sanitizeFormat :: "(rune \<Rightarrow> rune) \<Rightarrow> string \<Rightarrow> string" where
  "sanitizeFormat tbl v =
    (if ToLower tbl (TrimSpace v) \<in> set supportedFormats then ToLower tbl v else ''mp3'')"

definition sanitizeQuality :: "(rune \<Rightarrow> rune) \<Rightarrow> string \<Rightarrow> string" where
  "sanitizeQuality tbl v =
    (if ToLower tbl (TrimSpace v) \<in> set supportedQualities then ToLower tbl v else ''medium'')"

text \<open>
  \<open>upload\<close>, once the file is saved: the job it builds and stores. \<open>Join\<close> is
  \<open>filepath.Join\<close>, \<open>filename\<close> the name in the multipart header, \<open>formatValue\<close> and
  \<open>qualityValue\<close> the two form values.
\<close>

definition newJob ::
  "(rune \<Rightarrow> rune) \<Rightarrow> (string \<Rightarrow> string \<Rightarrow> string) \<Rightarrow> string \<Rightarrow> time \<Rightarrow> string \<Rightarrow> string \<Rightarrow> string
    \<Rightarrow> string \<Rightarrow> ExtractionJob"
where
  "newJob tbl Join uploadsDir now jobID filename formatValue qualityValue =
    (let format = sanitizeFormat tbl formatValue;
         quality = sanitizeQuality tbl qualityValue;
         safeName = sanitizeFileName filename;
         inputPath = Join uploadsDir (jobID @ ''_'' @ safeName)
     in
     \<lparr>ID = jobID, InputFileName = safeName, InputPath = inputPath, OutputPath = '''',
      OutputName = '''', Format = format, Quality = quality, Status = StatusUploaded,
      Progress = 0, Error = '''', TranscriptStatus = StatusNotStarted, TranscriptProgress = 0,
      TranscriptError = '''', TranscriptTXTPath = '''', TranscriptTXTName = '''',
      TranscriptSRTPath = '''', TranscriptSRTName = '''', CreatedAt = now, UpdatedAt = now\<rparr>)"

definition upload ::
  "(rune \<Rightarrow> rune) \<Rightarrow> (string \<Rightarrow> string \<Rightarrow> string) \<Rightarrow> string \<Rightarrow> time \<Rightarrow> string \<Rightarrow> string \<Rightarrow> string
    \<Rightarrow> string \<Rightarrow> registry \<Rightarrow> registry"
where
  "upload tbl Join uploadsDir now jobID filename formatValue qualityValue jobs =
    jobs(jobID \<mapsto> newJob tbl Join uploadsDir now jobID filename formatValue qualityValue)"

section \<open>The handlers package: the two workers\<close>

text \<open>
  A worker goroutine changes the registry only through \<open>updateJob\<close>, and after most
  updates it calls \<open>broadcast\<close>. One such step is the function handed to \<open>updateJob\<close>
  and the events broadcast after it.
\<close>

record step =
  upd :: "ExtractionJob \<Rightarrow> ExtractionJob"
  evs :: "ProgressEvent list"

text \<open>
  The run of a worker: its steps in order, and whether the goroutine has returned after
  the last of them.
\<close>

record trace =
  steps :: "step list"
  returned :: bool

text \<open>\<open>failJob\<close> and \<open>failTranscription\<close>.\<close>

definition failJob :: "string \<Rightarrow> goerr \<Rightarrow> time \<Rightarrow> step" where
  "failJob jobID err now =
    \<lparr>upd = (\<lambda>j. j\<lparr>Status := StatusFailed, Error := errorText err, UpdatedAt := now\<rparr>),
     evs = [emptyEvent\<lparr>EvID := jobID, EvStage := ''extraction'', EvStatus := StatusFailed,
              EvProgress := 0, EvError := errorText err,
              EvMessage := ''falha na extra'' @ [CHR 0xC3, CHR 0xA7, CHR 0xC3, CHR 0xA3] @ ''o''\<rparr>]\<rparr>"

definition failTranscription :: "string \<Rightarrow> goerr \<Rightarrow> time \<Rightarrow> step" where
  "failTranscription jobID err now =
    \<lparr>upd = (\<lambda>j. j\<lparr>TranscriptStatus := StatusFailed, TranscriptError := errorText err,
                   TranscriptProgress := 0, UpdatedAt := now\<rparr>),
     evs = [emptyEvent\<lparr>EvID := jobID, EvStage := ''transcription'', EvStatus := StatusFailed,
              EvProgress := 0, EvError := errorText err,
              EvMessage := ''falha na transcri'' @ [CHR 0xC3, CHR 0xA7, CHR 0xC3, CHR 0xA3]
                           @ ''o''\<rparr>]\<rparr>"

text \<open>\<open>extractor.OutputName\<close>.\<close>

definition OutputName_of :: "(rune \<Rightarrow> rune) \<Rightarrow> string \<Rightarrow> string \<Rightarrow> string" where
  "OutputName_of tbl jobID format0 =
    (let format1 = TrimPrefix (ToLower tbl format0) ''.'';
         format = (if format1 = '''' then ''mp3'' else format1)
     in Base jobID @ ''.'' @ format)"

text \<open>
  What \<open>runExtraction\<close> meets: the table behind \<open>unicode.ToLower\<close>, \<open>filepath.Join\<close>, the
  directory of the outputs, the result of \<open>os.MkdirAll\<close>, \<open>strconv.ParseFloat\<close> and the
  run of ffmpeg.
\<close>

record extractionEnv =
  caseTable :: "rune \<Rightarrow> rune"
  pathJoin :: "string \<Rightarrow> string \<Rightarrow> string"
  outputsDir :: string
  mkdirErr :: "goerr option"
  parseFloat :: "string \<Rightarrow> float64 option"
  ffmpeg :: ffmpegRun

text \<open>
  The callback \<open>runExtraction\<close> hands to \<open>ExtractAudio\<close>: the percent is raised to 1,
  stored, and broadcast.
\<close>

definition extractionProgress :: "string \<Rightarrow> callback \<Rightarrow> time \<Rightarrow> step" where
  "extractionProgress jobID cb now =
    (case cb of
       (percent0, status, message) \<Rightarrow>
         let percent = (if percent0 < 1 then 1 else percent0) in
         \<lparr>upd = (\<lambda>j. j\<lparr>Status := StatusProcessing, Progress := percent, UpdatedAt := now\<rparr>),
          evs = [emptyEvent\<lparr>EvID := jobID, EvStage := ''extraction'',
                   EvStatus := StatusProcessing, EvProgress := percent,
                   EvMessage := message\<rparr>]\<rparr>)"

text \<open>
  \<open>runExtraction\<close>. \<open>snapshot\<close> is what \<open>getJob\<close> returned at its start, and \<open>clock n\<close>
  the value of the worker's \<open>n\<close>-th call of \<open>time.Now()\<close>.
\<close>

definition runExtraction ::
  "extractionEnv \<Rightarrow> (nat \<Rightarrow> time) \<Rightarrow> string \<Rightarrow> ExtractionJob option \<Rightarrow> trace"
where
  "runExtraction env clock jobID snapshot =
    (case snapshot of
       None \<Rightarrow> \<lparr>steps = [], returned = True\<rparr>
     | Some job \<Rightarrow>
         let outputName = OutputName_of (caseTable env) (ID job) (Format job);
             outputPath = pathJoin env (outputsDir env) outputName
         in
         (case mkdirErr env of
           Some e \<Rightarrow>
             \<lparr>steps = [failJob jobID (Wrap ''failed to create outputs dir: '' e) (clock 0)],
              returned = True\<rparr>
         | None \<Rightarrow>
             (case ExtractAudio (parseFloat env) (ffmpeg env) of
                (cbs, err) \<Rightarrow>
                  \<lparr>steps =
                     [\<lparr>upd = (\<lambda>j. j\<lparr>Status := StatusProcessing, OutputName := outputName,
                                     OutputPath := outputPath, UpdatedAt := clock 0\<rparr>),
                       evs = []\<rparr>]
                     @ map (\<lambda>(n, cb). extractionProgress jobID cb (clock n)) (enumerate 1 cbs)
                     @ [case err of
                          Some e \<Rightarrow> failJob jobID e (clock (Suc (length cbs)))
                        | None \<Rightarrow>
                            \<lparr>upd = (\<lambda>j. j\<lparr>Status := StatusCompleted, Progress := 100,
                                          Error := '''',
                                          UpdatedAt := clock (Suc (length cbs))\<rparr>),
                             evs = [emptyEvent\<lparr>EvID := jobID, EvStage := ''extraction'',
                                      EvStatus := StatusCompleted, EvProgress := 100,
                                      EvMessage := msgExtractionDone,
                                      EvDownloadURL := ''/download/'' @ jobID\<rparr>]\<rparr>],
                   returned = True\<rparr>)))"

text \<open>
  What \<open>runTranscription\<close> meets: \<open>filepath.Join\<close>, the directory of the outputs, the
  configured model path, the run of whisper, and whether \<open>os.Stat\<close> finds the two
  artifacts afterwards.
\<close>

record transcriptionEnv =
  trPathJoin :: "string \<Rightarrow> string \<Rightarrow> string"
  trOutputsDir :: string
  whisperModel :: string
  whisper :: whisperRun
  txtExists :: bool
  srtExists :: bool

definition transcriptionProgress :: "string \<Rightarrow> callback \<Rightarrow> time \<Rightarrow> step" where
  "transcriptionProgress jobID cb now =
    (case cb of
       (percent0, status, message) \<Rightarrow>
         let percent = (if percent0 < 1 then 1 else percent0) in
         \<lparr>upd = (\<lambda>j. j\<lparr>TranscriptStatus := StatusProcessing, TranscriptProgress := percent,
                        UpdatedAt := now\<rparr>),
          evs = [emptyEvent\<lparr>EvID := jobID, EvStage := ''transcription'',
                   EvStatus := StatusProcessing, EvProgress := percent,
                   EvMessage := message\<rparr>]\<rparr>)"

definition msgNoAudio :: string where
  "msgNoAudio =
    ''arquivo de '' @ [CHR 0xC3, CHR 0xA1] @ ''udio n'' @ [CHR 0xC3, CHR 0xA3]
    @ ''o encontrado para transcri'' @ [CHR 0xC3, CHR 0xA7, CHR 0xC3, CHR 0xA3] @ ''o''"

definition msgNoTXT :: string where
  "msgNoTXT =
    ''transcri'' @ [CHR 0xC3, CHR 0xA7, CHR 0xC3, CHR 0xA3] @ ''o TXT n''
    @ [CHR 0xC3, CHR 0xA3] @ ''o foi gerada''"

definition msgNoSRT :: string where
  "msgNoSRT =
    ''transcri'' @ [CHR 0xC3, CHR 0xA7, CHR 0xC3, CHR 0xA3] @ ''o SRT n''
    @ [CHR 0xC3, CHR 0xA3] @ ''o foi gerada''"

text \<open>\<open>runTranscription\<close>, with \<open>snapshot\<close> and \<open>clock\<close> as above.\<close>

definition runTranscription ::
  "transcriptionEnv \<Rightarrow> (nat \<Rightarrow> time) \<Rightarrow> string \<Rightarrow> ExtractionJob option \<Rightarrow> trace"
where
  "runTranscription env clock jobID snapshot =
    (case snapshot of
       None \<Rightarrow> \<lparr>steps = [], returned = True\<rparr>
     | Some job \<Rightarrow>
         if OutputPath job = '''' then
           \<lparr>steps = [failTranscription jobID (ErrorString msgNoAudio) (clock 0)],
            returned = True\<rparr>
         else
           let base = trPathJoin env (trOutputsDir env) (ID job @ ''_transcript'');
               txtPath = base @ ''.txt'';
               srtPath = base @ ''.srt''
           in
           (case TranscribeAudio (whisperModel env) (whisper env) of
             (cbs, r) \<Rightarrow>
               let n = Suc (length cbs);
                   running =
                     [\<lparr>upd = (\<lambda>j. j\<lparr>TranscriptStatus := StatusProcessing,
                                     TranscriptProgress := 1, TranscriptError := '''',
                                     TranscriptTXTPath := txtPath,
                                     TranscriptTXTName := Base txtPath,
                                     TranscriptSRTPath := srtPath,
                                     TranscriptSRTName := Base srtPath,
                                     UpdatedAt := clock 0\<rparr>),
                       evs = []\<rparr>]
                     @ map (\<lambda>(n, cb). transcriptionProgress jobID cb (clock n)) (enumerate 1 cbs)
               in
               (case r of
                 None \<Rightarrow> \<lparr>steps = running, returned = False\<rparr>
               | Some (Some e) \<Rightarrow>
                   \<lparr>steps = running @ [failTranscription jobID e (clock n)], returned = True\<rparr>
               | Some None \<Rightarrow>
                   if \<not> txtExists env then
                     \<lparr>steps = running @ [failTranscription jobID (ErrorString msgNoTXT) (clock n)],
                      returned = True\<rparr>
                   else if \<not> srtExists env then
                     \<lparr>steps = running @ [failTranscription jobID (ErrorString msgNoSRT) (clock n)],
                      returned = True\<rparr>
                   else
                     \<lparr>steps = running
                        @ [\<lparr>upd = (\<lambda>j. j\<lparr>TranscriptStatus := StatusCompleted,
                                           TranscriptProgress := 100, TranscriptError := '''',
                                           UpdatedAt := clock n\<rparr>),
                             evs = [emptyEvent\<lparr>EvID := jobID, EvStage := ''transcription'',
                                      EvStatus := StatusCompleted, EvProgress := 100,
                                      EvMessage := msgTranscriptionDone,
                                      EvTranscriptTXTURL :=
                                        ''/transcript/'' @ jobID @ ''?format=txt'',
                                      EvTranscriptSRTURL :=
                                        ''/transcript/'' @ jobID @ ''?format=srt''\<rparr>]\<rparr>],
                      returned = True\<rparr>)))"

text \<open>A worker that runs alone: its steps applied in order, and all it broadcasts.\<close>

definition applySteps :: "string \<Rightarrow> step list \<Rightarrow> registry \<Rightarrow> registry" where
  "applySteps jobID sts jobs = foldl (\<lambda>js st. updateJob jobID (upd st) js) jobs sts"

definition broadcastsOf :: "step list \<Rightarrow> ProgressEvent list" where
  "broadcastsOf sts = concat (map evs sts)"

text \<open>\<open>currentProgressEvent\<close>, the event sent to an observer when it attaches.\<close>

definition downloadURLForJob :: "ExtractionJob \<Rightarrow> string" where
  "downloadURLForJob job = (if Status job = StatusCompleted then ''/download/'' @ ID job else '''')"

definition transcriptTXTURLForJob :: "ExtractionJob \<Rightarrow> string" where
  "transcriptTXTURLForJob job =
    (if TranscriptStatus job = StatusCompleted then ''/transcript/'' @ ID job @ ''?format=txt''
     else '''')"

definition transcriptSRTURLForJob :: "ExtractionJob \<Rightarrow> string" where
  "transcriptSRTURLForJob job =
    (if TranscriptStatus job = StatusCompleted then ''/transcript/'' @ ID job @ ''?format=srt''
     else '''')"

definition currentProgressEvent :: "ExtractionJob \<Rightarrow> ProgressEvent" where
  "currentProgressEvent job =
    (let event = emptyEvent\<lparr>EvID := ID job, EvStage := ''extraction'', EvStatus := Status job,
                   EvProgress := Progress job, EvError := Error job,
                   EvDownloadURL := downloadURLForJob job\<rparr>
     in
     if TranscriptStatus job = StatusQueued \<or> TranscriptStatus job = StatusProcessing
        \<or> TranscriptStatus job = StatusCompleted \<or> TranscriptStatus job = StatusFailed
     then event\<lparr>EvStage := ''transcription'', EvStatus := TranscriptStatus job,
            EvProgress := TranscriptProgress job, EvError := TranscriptError job,
            EvTranscriptTXTURL := transcriptTXTURLForJob job,
            EvTranscriptSRTURL := transcriptSRTURLForJob job\<rparr>
     else event)"

section \<open>The running program\<close>

text \<open>
  The state of the program: the registry, and for every job id the number of
  \<open>runExtraction\<close> and of \<open>runTranscription\<close> goroutines that have been started for it
  and have not returned.
\<close>

record sys =
  sysJobs :: registry
  extWorkers :: "string \<Rightarrow> nat"
  trWorkers :: "string \<Rightarrow> nat"

text \<open>
  The critical sections of \<open>a.mu\<close>, as steps on the state: a trigger (it may start a
  worker), one \<open>updateJob\<close> of a live worker (step \<open>n\<close> of its run \<open>tr\<close>; when that is
  the last step of a run that has returned, the worker is gone), the return of a worker,
  and a sweep of the reaper.
\<close>

definition triggerExtraction :: "time \<Rightarrow> string \<Rightarrow> sys \<Rightarrow> sys" where
  "triggerExtraction now jobID s =
    (let out = startExtraction now jobID (sysJobs s) in
     s\<lparr>sysJobs := registry out,
       extWorkers :=
         (extWorkers s)(jobID := extWorkers s jobID + (if worker out then 1 else 0))\<rparr>)"

definition triggerTranscription :: "time \<Rightarrow> string \<Rightarrow> sys \<Rightarrow> sys" where
  "triggerTranscription now jobID s =
    (let out = startTranscription now jobID (sysJobs s) in
     s\<lparr>sysJobs := registry out,
       trWorkers :=
         (trWorkers s)(jobID := trWorkers s jobID + (if worker out then 1 else 0))\<rparr>)"

definition extractionWorkerStep :: "trace \<Rightarrow> nat \<Rightarrow> string \<Rightarrow> sys \<Rightarrow> sys" where
  "extractionWorkerStep tr n jobID s =
    s\<lparr>sysJobs := updateJob jobID (upd (steps tr ! n)) (sysJobs s),
      extWorkers :=
        (extWorkers s)(jobID := extWorkers s jobID
           - (if returned tr \<and> Suc n = length (steps tr) then 1 else 0))\<rparr>"

definition transcriptionWorkerStep :: "trace \<Rightarrow> nat \<Rightarrow> string \<Rightarrow> sys \<Rightarrow> sys" where
  "transcriptionWorkerStep tr n jobID s =
    s\<lparr>sysJobs := updateJob jobID (upd (steps tr ! n)) (sysJobs s),
      trWorkers :=
        (trWorkers s)(jobID := trWorkers s jobID
           - (if returned tr \<and> Suc n = length (steps tr) then 1 else 0))\<rparr>"

definition sweep :: "time \<Rightarrow> time \<Rightarrow> string list \<Rightarrow> sys \<Rightarrow> sys" where
  "sweep now ttl order s = s\<lparr>sysJobs := fst (cleanup now ttl order (sysJobs s))\<rparr>"

definition initial :: sys where
  "initial = \<lparr>sysJobs = Map.empty, extWorkers = (\<lambda>k. 0), trWorkers = (\<lambda>k. 0)\<rparr>"

text \<open>
  The states the program reaches. An upload stores its job under an id that is new (ids
  are random). A worker takes any step of any of its runs; the goroutines interleave
  freely. A worker that finds no job at its start returns at once.
\<close>

inductive reachable :: "sys \<Rightarrow> bool" where
  start: "reachable initial"
| uploaded:
    "reachable s \<Longrightarrow> sysJobs s jobID = None \<Longrightarrow> extWorkers s jobID = 0
      \<Longrightarrow> trWorkers s jobID = 0
      \<Longrightarrow> reachable
           (s\<lparr>sysJobs :=
                upload tbl Join uploadsDir now jobID filename formatValue qualityValue
                  (sysJobs s)\<rparr>)"
| extractionTriggered:
    "reachable s \<Longrightarrow> reachable (triggerExtraction now jobID s)"
| transcriptionTriggered:
    "reachable s \<Longrightarrow> reachable (triggerTranscription now jobID s)"
| extractionStep:
    "reachable s \<Longrightarrow> 0 < extWorkers s jobID
      \<Longrightarrow> tr = runExtraction env clock jobID (Some snapshot)
      \<Longrightarrow> n < length (steps tr)
      \<Longrightarrow> reachable (extractionWorkerStep tr n jobID s)"
| extractionNoJob:
    "reachable s \<Longrightarrow> 0 < extWorkers s jobID \<Longrightarrow> getJob (sysJobs s) jobID = None
      \<Longrightarrow> reachable (s\<lparr>extWorkers := (extWorkers s)(jobID := extWorkers s jobID - 1)\<rparr>)"
| transcriptionStep:
    "reachable s \<Longrightarrow> 0 < trWorkers s jobID
      \<Longrightarrow> tr = runTranscription env clock jobID (Some snapshot)
      \<Longrightarrow> n < length (steps tr)
      \<Longrightarrow> reachable (transcriptionWorkerStep tr n jobID s)"
| transcriptionNoJob:
    "reachable s \<Longrightarrow> 0 < trWorkers s jobID \<Longrightarrow> getJob (sysJobs s) jobID = None
      \<Longrightarrow> reachable (s\<lparr>trWorkers := (trWorkers s)(jobID := trWorkers s jobID - 1)\<rparr>)"
| swept:
    "reachable s \<Longrightarrow> distinct order \<Longrightarrow> set order = dom (sysJobs s)
      \<Longrightarrow> reachable (sweep now ttl order s)"

text \<open>
  What holds of every job in the registry of a reachable state: each stage has at most
  one live worker, and only while the stage is queued or processing; the transcription
  stage has left \<open>not_started\<close> only if extraction is completed; and both stored progress
  values lie between 0 and 100.
\<close>

definition jobInv :: "sys \<Rightarrow> string \<Rightarrow> ExtractionJob \<Rightarrow> bool" where
  "jobInv s k j \<longleftrightarrow>
    extWorkers s k \<le> 1 \<and> trWorkers s k \<le> 1
    \<and> (extWorkers s k = 1 \<longrightarrow> Status j = StatusQueued \<or> Status j = StatusProcessing)
    \<and> (trWorkers s k = 1
         \<longrightarrow> TranscriptStatus j = StatusQueued \<or> TranscriptStatus j = StatusProcessing)
    \<and> (TranscriptStatus j \<noteq> StatusNotStarted \<longrightarrow> Status j = StatusCompleted)
    \<and> 0 \<le> Progress j \<and> Progress j \<le> 100
    \<and> 0 \<le> TranscriptProgress j \<and> TranscriptProgress j \<le> 100"

section \<open>The notions of the specification\<close>

text \<open>
  Stated from the specification, to compare the adapters with: the last line of a
  diagnostic stream that is not blank (trimmed), and a text cut to a bound.
\<close>

definition lastNonEmptyLine :: "string list \<Rightarrow> string option" where
  "lastNonEmptyLine ls =
    (let nonEmpty = filter (\<lambda>l. l \<noteq> '''') (map TrimSpace ls)
     in if nonEmpty = [] then None else Some (last nonEmpty))"

definition truncated :: "nat \<Rightarrow> string \<Rightarrow> string" where
  "truncated n s = (if n < length s then take n s @ ''...'' else s)"

text \<open>
  Stated from the specification: the bytes a sanitized file name may hold, that is the
  ASCII letters and digits, \<open>.\<close>, \<open>_\<close> and \<open>-\<close>.
\<close>

definition allowedChar :: "char \<Rightarrow> bool" where
  "allowedChar c \<longleftrightarrow>
    (0x61 \<le> byte c \<and> byte c \<le> 0x7A) \<or> (0x41 \<le> byte c \<and> byte c \<le> 0x5A)
    \<or> (0x30 \<le> byte c \<and> byte c \<le> 0x39) \<or> c = CHR ''.'' \<or> c = CHR ''_'' \<or> c = CHR ''-''"

section \<open>Concrete jobs, used where a statement is evaluated\<close>

definition demoJob :: ExtractionJob where
  "demoJob =
    \<lparr>ID = ''a1b2'', InputFileName = ''clip.mp4'', InputPath = ''uploads/a1b2_clip.mp4'',
     OutputPath = '''', OutputName = '''', Format = ''mp3'', Quality = ''medium'',
     Status = StatusUploaded, Progress = 0, Error = '''', TranscriptStatus = StatusNotStarted,
     TranscriptProgress = 0, TranscriptError = '''', TranscriptTXTPath = '''',
     TranscriptTXTName = '''', TranscriptSRTPath = '''', TranscriptSRTName = '''',
     CreatedAt = 0, UpdatedAt = 0\<rparr>"

definition doneJob :: ExtractionJob where
  "doneJob =
    demoJob\<lparr>ID := ''c3d4'', InputPath := ''uploads/c3d4_clip.mp4'',
      OutputPath := ''outputs/c3d4.mp3'', OutputName := ''c3d4.mp3'',
      Status := StatusCompleted, Progress := 100, TranscriptStatus := StatusCompleted,
      TranscriptProgress := 100, TranscriptTXTPath := ''outputs/c3d4_transcript.txt'',
      TranscriptTXTName := ''c3d4_transcript.txt'',
      TranscriptSRTPath := ''outputs/c3d4_transcript.srt'',
      TranscriptSRTName := ''c3d4_transcript.srt'', UpdatedAt := 50\<rparr>"

text \<open>
  Runs of ffmpeg: one that succeeds on a 100 second input, one that is killed when the
  deadline of its context expires, and one that exits with status 1 after a long line
  on standard error.
\<close>

definition goodRun :: ffmpegRun where
  "goodRun =
    \<lparr>probedDuration = Finite 100, stdoutPipeErr = None, stderrPipeErr = None, startErr = None,
     stdoutLines = [''out_time_ms=50000000'', ''progress=continue'', ''progress=end''],
     scanErr = None, waitErr = None, ctxErr = None, stderrLines = []\<rparr>"

definition deadlineRun :: ffmpegRun where
  "deadlineRun =
    goodRun\<lparr>stdoutLines := [''out_time_ms=50000000''],
      waitErr := Some (ExitError ''signal: killed''), ctxErr := Some DeadlineExceeded\<rparr>"

definition longLineRun :: ffmpegRun where
  "longLineRun =
    goodRun\<lparr>stdoutLines := [], waitErr := Some (ExitError ''exit status 1''),
      stderrLines := [''ffmpeg version 6'', replicate 300 (CHR ''x''), '' '']\<rparr>"

definition demoEnv :: "ffmpegRun \<Rightarrow> extractionEnv" where
  "demoEnv run =
    \<lparr>caseTable = (\<lambda>r. r), pathJoin = (\<lambda>d f. d @ ''/'' @ f), outputsDir = ''outputs'',
     mkdirErr = None,
     parseFloat = (\<lambda>s. if s = ''50000000'' then Some (Finite 50000000) else None),
     ffmpeg = run\<rparr>"

text \<open>
  Runs of whisper: one killed at the deadline, and one that exits with status 1 after
  the same long line as \<open>longLineRun\<close>.
\<close>

definition deadlineWhisper :: whisperRun where
  "deadlineWhisper =
    \<lparr>whisperStartErr = None, selects = [Tick, Tick, CtxDone DeadlineExceeded], buffer = ''''\<rparr>"

definition longLineWhisper :: whisperRun where
  "longLineWhisper =
    \<lparr>whisperStartErr = None, selects = [Tick, ProcDone (Some (ExitError ''exit status 1''))],
     buffer = ''loading model'' @ [CHR 0x0A] @ replicate 300 (CHR ''x'') @ [CHR 0x0A]\<rparr>"

text \<open>
  A run of the program on one upload: the extraction is triggered, its worker marks the
  job as processing and later as completed, the transcription is triggered, and its
  worker completes it.
\<close>

definition demoWhisperEnv :: transcriptionEnv where
  "demoWhisperEnv =
    \<lparr>trPathJoin = (\<lambda>d f. d @ ''/'' @ f), trOutputsDir = ''outputs'',
     whisperModel = ''ggml-base.bin'',
     whisper = \<lparr>whisperStartErr = None, selects = [Tick, ProcDone None], buffer = ''''\<rparr>,
     txtExists = True, srtExists = True\<rparr>"

definition demoSys1 :: sys where
  "demoSys1 =
    initial\<lparr>sysJobs :=
      upload (\<lambda>r. r) (\<lambda>d f. d @ ''/'' @ f) ''uploads'' 0 ''a1b2'' ''clip.mp4'' ''mp3'' ''medium''
        (sysJobs initial)\<rparr>"

definition demoSys2 :: sys where
  "demoSys2 = triggerExtraction 1 ''a1b2'' demoSys1"

definition demoSys3 :: sys where
  "demoSys3 =
    extractionWorkerStep (runExtraction (demoEnv goodRun) int ''a1b2'' (Some demoJob)) 0 ''a1b2''
      demoSys2"

definition demoSys4 :: sys where
  "demoSys4 =
    extractionWorkerStep (runExtraction (demoEnv goodRun) int ''a1b2'' (Some demoJob)) 5 ''a1b2''
      demoSys3"

definition demoSys5 :: sys where
  "demoSys5 = triggerTranscription 20 ''a1b2'' demoSys4"

definition demoSys6 :: sys where
  "demoSys6 =
    transcriptionWorkerStep
      (runTranscription demoWhisperEnv int ''a1b2'' (Some (demoJob\<lparr>OutputPath := ''outputs/a1b2.mp3''\<rparr>)))
      0 ''a1b2'' demoSys5"

definition demoSys7 :: sys where
  "demoSys7 =
    transcriptionWorkerStep
      (runTranscription demoWhisperEnv int ''a1b2'' (Some (demoJob\<lparr>OutputPath := ''outputs/a1b2.mp3''\<rparr>)))
      4 ''a1b2'' demoSys6"

definition demoFinalJob :: ExtractionJob where
  "demoFinalJob =
    \<lparr>ID = ''a1b2'', InputFileName = ''clip.mp4'', InputPath = ''uploads/a1b2_clip.mp4'',
     OutputPath = ''outputs/a1b2.mp3'', OutputName = ''a1b2.mp3'', Format = ''mp3'',
     Quality = ''medium'', Status = StatusCompleted, Progress = 100, Error = '''',
     TranscriptStatus = StatusCompleted, TranscriptProgress = 100, TranscriptError = '''',
     TranscriptTXTPath = ''outputs/a1b2_transcript.txt'',
     TranscriptTXTName = ''a1b2_transcript.txt'',
     TranscriptSRTPath = ''outputs/a1b2_transcript.srt'',
     TranscriptSRTName = ''a1b2_transcript.srt'', CreatedAt = 0, UpdatedAt = 4\<rparr>"

section \<open>Verified properties\<close>

subsection \<open>Triggers\<close>

text \<open>
  C2. When the extraction status of a job is anything but \<open>completed\<close>, a transcription
  trigger answers 409 Conflict, leaves the whole registry (and so both stage records of
  the job) as it was, broadcasts nothing and starts no worker.
\<close>

theorem startTranscription_before_extraction:
  assumes "jobs jobID = Some job" and "Status job \<noteq> StatusCompleted"
  shows "response (startTranscription now jobID jobs) = HttpError msgExtractionNotDone 409
    \<and> registry (startTranscription now jobID jobs) = jobs
    \<and> events (startTranscription now jobID jobs) = []
    \<and> \<not> worker (startTranscription now jobID jobs)"
  using assms by (simp add: startTranscription_def)

theorem startTranscription_before_extraction_witness:
  "[''a1b2'' \<mapsto> demoJob] ''a1b2'' = Some demoJob \<and> Status demoJob \<noteq> StatusCompleted
    \<and> response (startTranscription 7 ''a1b2'' [''a1b2'' \<mapsto> demoJob])
        = HttpError msgExtractionNotDone 409
    \<and> registry (startTranscription 7 ''a1b2'' [''a1b2'' \<mapsto> demoJob]) = [''a1b2'' \<mapsto> demoJob]
    \<and> events (startTranscription 7 ''a1b2'' [''a1b2'' \<mapsto> demoJob]) = []
    \<and> \<not> worker (startTranscription 7 ''a1b2'' [''a1b2'' \<mapsto> demoJob])"
proof -
  have h1: "[''a1b2'' \<mapsto> demoJob] ''a1b2'' = Some demoJob" by simp
  have h2: "Status demoJob \<noteq> StatusCompleted" by (simp add: demoJob_def)
  from startTranscription_before_extraction
         [where jobs = "[''a1b2'' \<mapsto> demoJob]" and jobID = "''a1b2''" and job = demoJob
            and now = 7, OF h1 h2] h1 h2
  show ?thesis by simp
qed

text \<open>
  C8. An extraction trigger that is accepted (it starts the worker) queues the extraction
  stage and resets the whole transcription stage of the job: status \<open>not_started\<close>,
  progress 0, no error, and the four transcript path and name fields empty. Id, input
  path and name, format, quality and creation time stay as they were (so do the output
  path and name); the update time becomes the time of the trigger.
\<close>

theorem startExtraction_resets_transcription:
  assumes "jobs jobID = Some job" and "worker (startExtraction now jobID jobs)"
  shows "\<exists>job'. registry (startExtraction now jobID jobs) jobID = Some job'
    \<and> Status job' = StatusQueued \<and> Progress job' = 1 \<and> Error job' = ''''
    \<and> TranscriptStatus job' = StatusNotStarted \<and> TranscriptProgress job' = 0
    \<and> TranscriptError job' = '''' \<and> TranscriptTXTPath job' = '''' \<and> TranscriptTXTName job' = ''''
    \<and> TranscriptSRTPath job' = '''' \<and> TranscriptSRTName job' = ''''
    \<and> ID job' = ID job \<and> InputPath job' = InputPath job
    \<and> InputFileName job' = InputFileName job \<and> Format job' = Format job
    \<and> Quality job' = Quality job \<and> CreatedAt job' = CreatedAt job
    \<and> OutputPath job' = OutputPath job \<and> OutputName job' = OutputName job
    \<and> UpdatedAt job' = now"
  using assms by (simp add: startExtraction_def split: if_splits)

theorem startExtraction_resets_transcription_witness:
  "[''c3d4'' \<mapsto> doneJob\<lparr>Status := StatusFailed\<rparr>] ''c3d4'' = Some (doneJob\<lparr>Status := StatusFailed\<rparr>)
    \<and> worker (startExtraction 60 ''c3d4'' [''c3d4'' \<mapsto> doneJob\<lparr>Status := StatusFailed\<rparr>])
    \<and> TranscriptStatus (doneJob\<lparr>Status := StatusFailed\<rparr>) = StatusCompleted
    \<and> TranscriptTXTPath (doneJob\<lparr>Status := StatusFailed\<rparr>) = ''outputs/c3d4_transcript.txt''
    \<and> (\<exists>job'. registry (startExtraction 60 ''c3d4'' [''c3d4'' \<mapsto> doneJob\<lparr>Status := StatusFailed\<rparr>])
                 ''c3d4'' = Some job'
          \<and> Status job' = StatusQueued \<and> TranscriptStatus job' = StatusNotStarted
          \<and> TranscriptProgress job' = 0 \<and> TranscriptError job' = ''''
          \<and> TranscriptTXTPath job' = '''' \<and> TranscriptTXTName job' = ''''
          \<and> TranscriptSRTPath job' = '''' \<and> TranscriptSRTName job' = ''''
          \<and> ID job' = ''c3d4'' \<and> Format job' = ''mp3'' \<and> CreatedAt job' = 0
          \<and> UpdatedAt job' = 60)"
proof -
  let ?j = "doneJob\<lparr>Status := StatusFailed\<rparr>"
  have h1: "[''c3d4'' \<mapsto> ?j] ''c3d4'' = Some ?j" by simp
  have h2: "worker (startExtraction 60 ''c3d4'' [''c3d4'' \<mapsto> ?j])"
    by (simp add: startExtraction_def)
  from startExtraction_resets_transcription
         [where jobs = "[''c3d4'' \<mapsto> ?j]" and jobID = "''c3d4''" and job = ?j and now = 60,
          OF h1 h2]
  obtain job' where j: "registry (startExtraction 60 ''c3d4'' [''c3d4'' \<mapsto> ?j]) ''c3d4'' = Some job'"
    "Status job' = StatusQueued" "TranscriptStatus job' = StatusNotStarted"
    "TranscriptProgress job' = 0" "TranscriptError job' = ''''"
    "TranscriptTXTPath job' = ''''" "TranscriptTXTName job' = ''''"
    "TranscriptSRTPath job' = ''''" "TranscriptSRTName job' = ''''"
    "ID job' = ID ?j" "Format job' = Format ?j" "CreatedAt job' = CreatedAt ?j"
    "UpdatedAt job' = 60"
    by blast
  have "ID job' = ''c3d4''" "Format job' = ''mp3''" "CreatedAt job' = 0"
    using j by (simp_all add: doneJob_def demoJob_def)
  with j h1 h2 show ?thesis
    by (simp add: doneJob_def)
qed

subsection \<open>ffmpeg arguments\<close>

lemma normal_form_literals:
  "ToLower tbl (TrimSpace ''mp3'') = ''mp3''"
  "ToLower tbl (TrimSpace ''wav'') = ''wav''"
  "ToLower tbl (TrimSpace ''aac'') = ''aac''"
  "ToLower tbl (TrimSpace ''flac'') = ''flac''"
  "ToLower tbl (TrimSpace ''ogg'') = ''ogg''"
  "ToLower tbl (TrimSpace ''low'') = ''low''"
  "ToLower tbl (TrimSpace ''medium'') = ''medium''"
  "ToLower tbl (TrimSpace ''high'') = ''high''"
  "ToLower tbl (TrimSpace ''original'') = ''original''"
  by code_simp+

lemma supported_args:
  "\<forall>f \<in> set supportedFormats. \<forall>q \<in> set supportedQualities.
     codecAndQualityArgs tbl f q \<noteq> []
     \<and> codecAndQualityArgs tbl f q = codecAndQualityArgs tbl' f q
     \<and> codecAndQualityArgs tbl f q \<noteq> [''-codec:a'', ''copy'']"
  by (simp add: supportedFormats_def supportedQualities_def codecAndQualityArgs_def Let_def
        normal_form_literals)

lemma unsupported_args:
  "ToLower tbl (TrimSpace format) \<notin> set supportedFormats \<Longrightarrow> ToLower tbl (TrimSpace format) \<noteq> ''''
    \<Longrightarrow> codecAndQualityArgs tbl format quality = [''-codec:a'', ''copy'']"
  by (simp add: codecAndQualityArgs_def supportedFormats_def Let_def)

text \<open>
  C6. \<open>codecAndQualityArgs\<close> is a function of the format and the quality alone: on each
  of the twenty supported pairs its value does not depend on the case table behind
  \<open>strings.ToLower\<close> (the only other thing it reads), it is not empty, and it is not the
  copy configuration. For a format whose trimmed, lowercased form is not empty and not a
  supported format, it is the copy configuration \<open>-codec:a copy\<close>.
\<close>

theorem codecAndQualityArgs_supported_or_copy:
  "(\<forall>f \<in> set supportedFormats. \<forall>q \<in> set supportedQualities.
      codecAndQualityArgs tbl f q \<noteq> []
      \<and> codecAndQualityArgs tbl f q = codecAndQualityArgs tbl' f q
      \<and> codecAndQualityArgs tbl f q \<noteq> [''-codec:a'', ''copy''])
   \<and> (ToLower tbl (TrimSpace format) \<notin> set supportedFormats
        \<and> ToLower tbl (TrimSpace format) \<noteq> ''''
      \<longrightarrow> codecAndQualityArgs tbl format quality = [''-codec:a'', ''copy''])"
  using supported_args [of tbl tbl'] unsupported_args [of tbl format quality] by blast

theorem codecAndQualityArgs_supported_or_copy_witness:
  "''flac'' \<in> set supportedFormats \<and> ''high'' \<in> set supportedQualities
   \<and> codecAndQualityArgs (\<lambda>r. r) ''flac'' ''high'' \<noteq> []
   \<and> codecAndQualityArgs (\<lambda>r. r) ''flac'' ''high'' = codecAndQualityArgs (\<lambda>r. r + 1) ''flac'' ''high''
   \<and> ToLower (\<lambda>r. r) (TrimSpace ''Opus '') \<notin> set supportedFormats
   \<and> ToLower (\<lambda>r. r) (TrimSpace ''Opus '') \<noteq> ''''
   \<and> codecAndQualityArgs (\<lambda>r. r) ''Opus '' ''low'' = [''-codec:a'', ''copy'']"
proof -
  have f: "''flac'' \<in> set supportedFormats" by (simp add: supportedFormats_def)
  have q: "''high'' \<in> set supportedQualities" by (simp add: supportedQualities_def)
  have n: "ToLower (\<lambda>r. r) (TrimSpace ''Opus '') = ''opus''" by code_simp
  have h: "ToLower (\<lambda>r. r) (TrimSpace ''Opus '') \<notin> set supportedFormats"
    "ToLower (\<lambda>r. r) (TrimSpace ''Opus '') \<noteq> ''''"
    unfolding n by (simp_all add: supportedFormats_def)
  from codecAndQualityArgs_supported_or_copy
         [of "\<lambda>r. r" "\<lambda>r. r + 1" "''Opus ''" "''low''"] f q h
  show ?thesis by blast
qed

subsection \<open>The reaper\<close>

lemma cleanupScan_registry:
  "fst (cleanupScan c ks jobs old) k =
    (if k \<in> set ks
     then (case jobs k of None \<Rightarrow> None | Some j \<Rightarrow> if UpdatedAt j < c then None else Some j)
     else jobs k)"
proof (induction ks arbitrary: jobs old)
  case Nil
  then show ?case by simp
next
  case (Cons a ks)
  then show ?case by (auto split: option.splits)
qed

lemma cleanupScan_removed:
  "j \<in> set (snd (cleanupScan c ks jobs old)) \<longleftrightarrow>
    j \<in> set old \<or> (\<exists>k \<in> set ks. jobs k = Some j \<and> UpdatedAt j < c)"
proof (induction ks arbitrary: jobs old)
  case Nil
  then show ?case by simp
next
  case (Cons a ks)
  show ?case
  proof (cases "jobs a")
    case None
    then show ?thesis using Cons.IH [of jobs old] by auto
  next
    case (Some job)
    show ?thesis
    proof (cases "UpdatedAt job < c")
      case True
      have eq: "(\<exists>k \<in> set ks. (jobs(a := None)) k = Some j \<and> UpdatedAt j < c) \<or> j = job
            \<longleftrightarrow> (\<exists>k \<in> set (a # ks). jobs k = Some j \<and> UpdatedAt j < c)"
      proof (cases "j = job")
        case True
        then show ?thesis using Some \<open>UpdatedAt job < c\<close> by auto
      next
        case False
        have "k \<noteq> a" if "jobs k = Some j" for k
          using that Some False by auto
        then show ?thesis using False by (auto simp: fun_upd_apply)
      qed
      have step: "cleanupScan c (a # ks) jobs old = cleanupScan c ks (jobs(a := None)) (old @ [job])"
        using Some True by simp
      have "j \<in> set (snd (cleanupScan c (a # ks) jobs old)) \<longleftrightarrow>
            j \<in> set (old @ [job])
            \<or> (\<exists>k \<in> set ks. (jobs(a := None)) k = Some j \<and> UpdatedAt j < c)"
        unfolding step by (rule Cons.IH)
      also have "\<dots> \<longleftrightarrow>
            j \<in> set old
            \<or> ((\<exists>k \<in> set ks. (jobs(a := None)) k = Some j \<and> UpdatedAt j < c) \<or> j = job)"
        by (simp del: fun_upd_apply) blast
      also have "\<dots> \<longleftrightarrow>
            j \<in> set old \<or> (\<exists>k \<in> set (a # ks). jobs k = Some j \<and> UpdatedAt j < c)"
        by (simp only: eq)
      finally show ?thesis .
    next
      case False
      then show ?thesis using Some Cons.IH [of jobs old] by auto
    qed
  qed
qed

lemma set_jobFiles:
  "set (jobFiles j) =
    {p. p \<noteq> '''' \<and> (p = InputPath j \<or> p = OutputPath j \<or> p = TranscriptTXTPath j
                    \<or> p = TranscriptSRTPath j)}"
  by (auto simp: jobFiles_def)

text \<open>
  C3 (amended). One sweep at time \<open>now\<close> with time-to-live \<open>ttl\<close> removes exactly the
  jobs with \<open>now - updated_at > ttl\<close> (the updated time lies strictly before the cutoff
  \<open>now - ttl\<close>) and leaves every job with \<open>now - updated_at \<le> ttl\<close> as it was. The paths
  handed to \<open>os.Remove\<close> are exactly the non-empty input, output, transcript TXT and
  transcript SRT paths of the removed jobs. A job whose age is exactly \<open>ttl\<close> stays, as
  the counterexample shows.
\<close>

theorem cleanup_removes_older_than_ttl:
  assumes "set order = dom jobs"
  shows "(\<forall>k. fst (cleanup now ttl order jobs) k =
            (case jobs k of
               None \<Rightarrow> None
             | Some j \<Rightarrow> if ttl < now - UpdatedAt j then None else Some j))
    \<and> set (snd (cleanup now ttl order jobs)) =
        {p. p \<noteq> '''' \<and> (\<exists>k j. jobs k = Some j \<and> ttl < now - UpdatedAt j
               \<and> (p = InputPath j \<or> p = OutputPath j \<or> p = TranscriptTXTPath j
                    \<or> p = TranscriptSRTPath j))}"
proof -
  obtain jobs' oldJobs where sc: "cleanupScan (now - ttl) order jobs [] = (jobs', oldJobs)"
    by (cases "cleanupScan (now - ttl) order jobs []")
  have c: "cleanup now ttl order jobs = (jobs', concat (map jobFiles oldJobs))"
    by (simp add: cleanup_def sc)
  have r: "jobs' k = (case jobs k of
               None \<Rightarrow> None
             | Some j \<Rightarrow> if ttl < now - UpdatedAt j then None else Some j)" for k
  proof -
    have "jobs' k = fst (cleanupScan (now - ttl) order jobs []) k" by (simp add: sc)
    also have "\<dots> = (if k \<in> set order
        then (case jobs k of None \<Rightarrow> None | Some j \<Rightarrow> if UpdatedAt j < now - ttl then None else Some j)
        else jobs k)"
      by (rule cleanupScan_registry)
    also have "\<dots> = (case jobs k of
               None \<Rightarrow> None
             | Some j \<Rightarrow> if ttl < now - UpdatedAt j then None else Some j)"
      using assms by (auto split: option.splits)
    finally show ?thesis .
  qed
  have o: "j \<in> set oldJobs \<longleftrightarrow> (\<exists>k. jobs k = Some j \<and> ttl < now - UpdatedAt j)" for j
  proof -
    have "j \<in> set oldJobs \<longleftrightarrow> (\<exists>k \<in> set order. jobs k = Some j \<and> UpdatedAt j < now - ttl)"
      using cleanupScan_removed [of j "now - ttl" order jobs "[]"] by (simp add: sc)
    also have "\<dots> \<longleftrightarrow> (\<exists>k. jobs k = Some j \<and> ttl < now - UpdatedAt j)"
      using assms by auto
    finally show ?thesis .
  qed
  have "p \<in> set (concat (map jobFiles oldJobs)) \<longleftrightarrow>
        p \<noteq> '''' \<and> (\<exists>k j. jobs k = Some j \<and> ttl < now - UpdatedAt j
               \<and> (p = InputPath j \<or> p = OutputPath j \<or> p = TranscriptTXTPath j
                    \<or> p = TranscriptSRTPath j))" for p
  proof -
    have "p \<in> set (concat (map jobFiles oldJobs)) \<longleftrightarrow> (\<exists>j. j \<in> set oldJobs \<and> p \<in> set (jobFiles j))"
      by auto
    also have "\<dots> \<longleftrightarrow> (\<exists>j. (\<exists>k. jobs k = Some j \<and> ttl < now - UpdatedAt j) \<and> p \<in> set (jobFiles j))"
      by (simp only: o)
    also have "\<dots> \<longleftrightarrow> p \<noteq> '''' \<and> (\<exists>k j. jobs k = Some j \<and> ttl < now - UpdatedAt j
               \<and> (p = InputPath j \<or> p = OutputPath j \<or> p = TranscriptTXTPath j
                    \<or> p = TranscriptSRTPath j))"
      unfolding set_jobFiles by blast
    finally show ?thesis .
  qed
  then have "set (concat (map jobFiles oldJobs)) =
        {p. p \<noteq> '''' \<and> (\<exists>k j. jobs k = Some j \<and> ttl < now - UpdatedAt j
               \<and> (p = InputPath j \<or> p = OutputPath j \<or> p = TranscriptTXTPath j
                    \<or> p = TranscriptSRTPath j))}"
    by blast
  with r c show ?thesis by simp
qed


theorem cleanup_at_ttl_counterexample:
  "10 - UpdatedAt demoJob \<ge> (10::int)
   \<and> fst (cleanup 10 10 [''a1b2''] [''a1b2'' \<mapsto> demoJob]) ''a1b2'' = Some demoJob
   \<and> snd (cleanup 10 10 [''a1b2''] [''a1b2'' \<mapsto> demoJob]) = []"
  by (simp add: cleanup_def demoJob_def)

theorem cleanup_removes_older_than_ttl_witness:
  "set [''c3d4'', ''a1b2''] = dom [''a1b2'' \<mapsto> demoJob, ''c3d4'' \<mapsto> doneJob]
   \<and> fst (cleanup 55 10 [''c3d4'', ''a1b2''] [''a1b2'' \<mapsto> demoJob, ''c3d4'' \<mapsto> doneJob]) ''a1b2''
       = None
   \<and> fst (cleanup 55 10 [''c3d4'', ''a1b2''] [''a1b2'' \<mapsto> demoJob, ''c3d4'' \<mapsto> doneJob]) ''c3d4''
       = Some doneJob
   \<and> ''uploads/a1b2_clip.mp4''
       \<in> set (snd (cleanup 55 10 [''c3d4'', ''a1b2''] [''a1b2'' \<mapsto> demoJob, ''c3d4'' \<mapsto> doneJob]))
   \<and> ''outputs/c3d4.mp3''
       \<notin> set (snd (cleanup 55 10 [''c3d4'', ''a1b2''] [''a1b2'' \<mapsto> demoJob, ''c3d4'' \<mapsto> doneJob]))"
proof -
  let ?jobs = "[''a1b2'' \<mapsto> demoJob, ''c3d4'' \<mapsto> doneJob]"
  have h: "set [''c3d4'', ''a1b2''] = dom ?jobs" by auto
  note t = cleanup_removes_older_than_ttl [OF h, of 55 10]
  have a: "fst (cleanup 55 10 [''c3d4'', ''a1b2''] ?jobs) ''a1b2'' = None"
    using t by (simp add: demoJob_def)
  have b: "fst (cleanup 55 10 [''c3d4'', ''a1b2''] ?jobs) ''c3d4'' = Some doneJob"
    using t by (simp add: demoJob_def doneJob_def)
  have "?jobs ''a1b2'' = Some demoJob \<and> (10::int) < 55 - UpdatedAt demoJob
        \<and> ''uploads/a1b2_clip.mp4'' = InputPath demoJob"
    by (simp add: demoJob_def)
  then have c: "''uploads/a1b2_clip.mp4'' \<in> set (snd (cleanup 55 10 [''c3d4'', ''a1b2''] ?jobs))"
    unfolding conjunct2 [OF t] by blast
  have "\<not> (?jobs k = Some j \<and> (10::int) < 55 - UpdatedAt j
        \<and> (''outputs/c3d4.mp3'' = InputPath j \<or> ''outputs/c3d4.mp3'' = OutputPath j
             \<or> ''outputs/c3d4.mp3'' = TranscriptTXTPath j
             \<or> ''outputs/c3d4.mp3'' = TranscriptSRTPath j))" for k j
    by (auto simp: demoJob_def doneJob_def split: if_splits)
  then have d: "''outputs/c3d4.mp3'' \<notin> set (snd (cleanup 55 10 [''c3d4'', ''a1b2''] ?jobs))"
    unfolding conjunct2 [OF t] by blast
  from h a b c d show ?thesis by blast
qed

subsection \<open>Failure messages of the adapters\<close>

lemma lastNonEmptyLine_Cons:
  "lastNonEmptyLine (l # ls) =
    (case lastNonEmptyLine ls of
       Some x \<Rightarrow> Some x
     | None \<Rightarrow> if TrimSpace l \<noteq> '''' then Some (TrimSpace l) else None)"
  by (simp add: lastNonEmptyLine_def Let_def)

lemma lastNonEmptyLine_snoc:
  "lastNonEmptyLine (ls @ [l]) =
    (if TrimSpace l \<noteq> '''' then Some (TrimSpace l) else lastNonEmptyLine ls)"
  by (simp add: lastNonEmptyLine_def Let_def)

lemma scanStderr_last:
  "scanStderr acc ls = (case lastNonEmptyLine ls of None \<Rightarrow> acc | Some l \<Rightarrow> l)"
proof (induction ls arbitrary: acc)
  case Nil
  then show ?case by (simp add: lastNonEmptyLine_def)
next
  case (Cons l ls)
  then show ?case by (simp add: lastNonEmptyLine_Cons Let_def split: option.splits)
qed

lemma lastNonEmptyLine_nonempty: "lastNonEmptyLine ls = Some l \<Longrightarrow> l \<noteq> ''''"
proof (induction ls rule: rev_induct)
  case Nil
  then show ?case by (simp add: lastNonEmptyLine_def)
next
  case (snoc x xs)
  then show ?case by (simp add: lastNonEmptyLine_snoc split: if_splits)
qed

lemma compactScan_last:
  "compactScan (rev ls) =
    (case lastNonEmptyLine ls of None \<Rightarrow> ''unknown whisper error'' | Some l \<Rightarrow> truncated 220 l)"
proof (induction ls rule: rev_induct)
  case Nil
  then show ?case by (simp add: lastNonEmptyLine_def)
next
  case (snoc x xs)
  then show ?case by (simp add: lastNonEmptyLine_snoc Let_def truncated_def)
qed

lemma transcribeLoop_tick:
  "snd (transcribeLoop out p (Tick # rest)) =
    snd (transcribeLoop out (if p < 90 then p + 7 else p) rest)"
  by (simp add: Let_def split: prod.splits)

lemma transcribeLoop_result_ticks:
  assumes "c \<noteq> Tick"
  shows "snd (transcribeLoop out p (replicate n Tick @ c # rest)) =
    snd (transcribeLoop out 0 (c # rest))"
proof (induction n arbitrary: p)
  case 0
  show ?case
  proof (cases c)
    case (CtxDone e)
    then show ?thesis by simp
  next
    case (ProcDone x)
    then show ?thesis by (cases x) (simp_all add: Let_def)
  next
    case Tick
    then show ?thesis using assms by simp
  qed
next
  case (Suc n)
  show ?case
    by (simp only: replicate_Suc append_Cons transcribeLoop_tick Suc.IH)
qed

text \<open>
  What the two adapters answer when the process exits abnormally and the context is not
  done. \<open>stderrLines\<close> is what the goroutine over standard error had scanned when
  \<open>cmd.Wait\<close> returned: \<open>ExtractAudio\<close> does not wait for that goroutine, so these need
  not be all the lines ffmpeg wrote. \<open>ExtractAudio\<close> returns \<open>ffmpeg failed:\<close> followed
  by the last of them that is not blank, trimmed and whole. \<open>TranscribeAudio\<close> returns
  \<open>whisper-cli failed:\<close> followed by the last line of the trimmed output buffer that is
  not blank, cut to 220 bytes and \<open>...\<close> when it is longer. When there is no such line,
  each returns its prefix wrapping the exit error.
\<close>

lemma failure_message_of_adapters:
  "(stdoutPipeErr run = None \<and> stderrPipeErr run = None \<and> startErr run = None
      \<and> scanErr run = None \<and> waitErr run = Some e \<and> ctxErr run = None
     \<longrightarrow> snd (ExtractAudio ParseFloat run) =
          Some (case lastNonEmptyLine (stderrLines run) of
                  None \<Rightarrow> Wrap ''ffmpeg failed: '' e
                | Some l \<Rightarrow> ErrorString (''ffmpeg failed: '' @ l)))
   \<and> (model \<noteq> '''' \<and> whisperStartErr wrun = None
      \<and> selects wrun = replicate n Tick @ ProcDone (Some e) # rest
     \<longrightarrow> snd (TranscribeAudio model wrun) =
          Some (Some (if TrimSpace (buffer wrun) = '''' then Wrap ''whisper-cli failed: '' e
                      else ErrorString (''whisper-cli failed: '' @
                        (case lastNonEmptyLine (splitLines (TrimSpace (buffer wrun))) of
                           None \<Rightarrow> ''unknown whisper error''
                         | Some l \<Rightarrow> truncated 220 l)))))
   \<and> length (truncated 220 l) \<le> 223"
proof (intro conjI impI)
  assume "stdoutPipeErr run = None \<and> stderrPipeErr run = None \<and> startErr run = None
      \<and> scanErr run = None \<and> waitErr run = Some e \<and> ctxErr run = None"
  then show "snd (ExtractAudio ParseFloat run) =
          Some (case lastNonEmptyLine (stderrLines run) of
                  None \<Rightarrow> Wrap ''ffmpeg failed: '' e
                | Some l \<Rightarrow> ErrorString (''ffmpeg failed: '' @ l))"
    using lastNonEmptyLine_nonempty [of "stderrLines run"]
    by (auto simp: ExtractAudio_def Let_def errorsIs_def scanStderr_last split: option.splits)
next
  assume a: "model \<noteq> '''' \<and> whisperStartErr wrun = None
      \<and> selects wrun = replicate n Tick @ ProcDone (Some e) # rest"
  have "snd (TranscribeAudio model wrun) = snd (transcribeLoop (buffer wrun) 5 (selects wrun))"
    using a by (simp add: TranscribeAudio_def Let_def split: prod.splits)
  also have "\<dots> = snd (transcribeLoop (buffer wrun) 0 (ProcDone (Some e) # rest))"
    using a transcribeLoop_result_ticks [of "ProcDone (Some e)" "buffer wrun" 5 n rest] by simp
  also have "\<dots> = Some (Some (if TrimSpace (buffer wrun) = '''' then Wrap ''whisper-cli failed: '' e
                      else ErrorString (''whisper-cli failed: '' @
                        (case lastNonEmptyLine (splitLines (TrimSpace (buffer wrun))) of
                           None \<Rightarrow> ''unknown whisper error''
                         | Some l \<Rightarrow> truncated 220 l))))"
    by (simp add: Let_def compactLogLine_def compactScan_last)
  finally show "snd (TranscribeAudio model wrun) =
          Some (Some (if TrimSpace (buffer wrun) = '''' then Wrap ''whisper-cli failed: '' e
                      else ErrorString (''whisper-cli failed: '' @
                        (case lastNonEmptyLine (splitLines (TrimSpace (buffer wrun))) of
                           None \<Rightarrow> ''unknown whisper error''
                         | Some l \<Rightarrow> truncated 220 l))))" .
next
  show "length (truncated 220 l) \<le> 223" by (simp add: truncated_def)
qed

text \<open>
  C7, at a run the claim is about: ffmpeg exits with status 1 after it has written a line
  of 300 bytes to standard error, its context is not done, and the goroutine over
  standard error has scanned that line when \<open>cmd.Wait\<close> returns. \<open>ExtractAudio\<close> returns
  \<open>ffmpeg failed:\<close> followed by all 300 bytes, and \<open>failJob\<close> stores these 315 bytes as
  the error of the job: the line is not cut to any length. \<open>compactLogLine\<close> cuts the same
  line to 220 bytes and \<open>...\<close>, and \<open>TranscribeAudio\<close>, which calls it, returns the cut
  line when whisper exits after writing that line.
\<close>

theorem extraction_failure_line_not_truncated:
  "snd (ExtractAudio (parseFloat (demoEnv longLineRun)) longLineRun)
     = Some (ErrorString (''ffmpeg failed: '' @ replicate 300 (CHR ''x'')))
   \<and> map_option (\<lambda>j. (Status j, Error j, length (Error j)))
        (applySteps ''a1b2''
           (steps (runExtraction (demoEnv longLineRun) int ''a1b2'' (Some demoJob)))
           [''a1b2'' \<mapsto> demoJob] ''a1b2'')
       = Some (StatusFailed, ''ffmpeg failed: '' @ replicate 300 (CHR ''x''), 315)
   \<and> compactLogLine (replicate 300 (CHR ''x'')) = replicate 220 (CHR ''x'') @ ''...''
   \<and> snd (TranscribeAudio ''ggml-base.bin'' longLineWhisper)
       = Some (Some (ErrorString (''whisper-cli failed: '' @ replicate 220 (CHR ''x'') @ ''...'')))"
  by code_simp

text \<open>
  C5, at a run the claim is about: ffmpeg is killed because the deadline of the context
  expired, so \<open>cmd.Wait\<close> returns the exit error \<open>signal: killed\<close> and \<open>ctx.Err()\<close> is
  \<open>context.DeadlineExceeded\<close>. \<open>ExtractAudio\<close> only tests for \<open>context.Canceled\<close>, so it
  returns the ffmpeg execution failure, which is neither of the two context errors; the
  job is recorded as failed with that text, and no event of the run carries a download
  URL. \<open>TranscribeAudio\<close> returns \<open>ctx.Err()\<close> at its deadline.
\<close>

theorem extraction_deadline_reported_as_ffmpeg_failure:
  "snd (ExtractAudio (parseFloat (demoEnv deadlineRun)) deadlineRun)
     = Some (Wrap ''ffmpeg failed: '' (ExitError ''signal: killed''))
   \<and> \<not> errorsIs (snd (ExtractAudio (parseFloat (demoEnv deadlineRun)) deadlineRun)) DeadlineExceeded
   \<and> \<not> errorsIs (snd (ExtractAudio (parseFloat (demoEnv deadlineRun)) deadlineRun)) Canceled
   \<and> map_option (\<lambda>j. (Status j, Error j, downloadURLForJob j))
        (applySteps ''a1b2''
           (steps (runExtraction (demoEnv deadlineRun) int ''a1b2'' (Some demoJob)))
           [''a1b2'' \<mapsto> demoJob] ''a1b2'')
       = Some (StatusFailed, ''ffmpeg failed: signal: killed'', '''')
   \<and> list_all (\<lambda>e. EvDownloadURL e = '''')
        (broadcastsOf (steps (runExtraction (demoEnv deadlineRun) int ''a1b2'' (Some demoJob))))
   \<and> snd (TranscribeAudio ''ggml-base.bin'' deadlineWhisper) = Some (Some DeadlineExceeded)"
  by code_simp

subsection \<open>Progress values of the adapters and of the worker steps\<close>

lemma truncate_bounds:
  assumes "0 \<le> x" and "x \<le> 100"
  shows "0 \<le> truncToZero x \<and> truncToZero x \<le> 100"
proof -
  have "\<lfloor>x\<rfloor> \<le> \<lfloor>100::real\<rfloor>" using assms(2) by (rule floor_mono)
  then have "\<lfloor>x\<rfloor> \<le> 100" by simp
  moreover have "0 \<le> \<lfloor>x\<rfloor>" using assms(1) by simp
  ultimately show ?thesis using assms(1) by (simp add: truncToZero_def)
qed

lemma bitLen_le: "n < 2 ^ m \<Longrightarrow> bitLen n \<le> m"
proof (induction m arbitrary: n)
  case 0
  then show ?case by simp
next
  case (Suc m)
  show ?case
  proof (cases "n = 0")
    case True
    then show ?thesis by simp
  next
    case False
    have "n div 2 < 2 ^ m" using Suc.prems by simp
    then have "bitLen (n div 2) \<le> m" by (rule Suc.IH)
    then show ?thesis using False by (subst bitLen.simps) simp
  qed
qed

lemma exponent_le:
  assumes "0 < a" and "a \<le> 100"
  shows "exponent a \<le> 6"
proof (cases "1 \<le> a")
  case True
  have "\<lfloor>a\<rfloor> \<le> 100" using assms(2) by (simp add: floor_le_iff)
  then have "nat \<lfloor>a\<rfloor> < 128" by linarith
  then have "nat \<lfloor>a\<rfloor> < 2 ^ 7" by simp
  then have "bitLen (nat \<lfloor>a\<rfloor>) \<le> 7" by (rule bitLen_le)
  then show ?thesis using True by (simp add: exponent_def)
next
  case False
  then show ?thesis by (simp add: exponent_def del: bitLen.simps)
qed

lemma roundHalfEven_nonneg: "0 \<le> t \<Longrightarrow> 0 \<le> roundHalfEven t"
  by (simp add: roundHalfEven_def Let_def)

lemma roundHalfEven_le:
  assumes "t \<le> of_int N"
  shows "roundHalfEven t \<le> N"
proof (cases "\<lfloor>t\<rfloor> = N")
  case True
  then have "of_int N \<le> t" by (metis of_int_floor_le)
  then have "t = of_int N" using assms by simp
  then show ?thesis by (simp add: roundHalfEven_def Let_def)
next
  case False
  have "\<lfloor>t\<rfloor> \<le> N" using assms by (simp add: floor_le_iff)
  then have "\<lfloor>t\<rfloor> + 1 \<le> N" using False by simp
  then show ?thesis by (auto simp: roundHalfEven_def Let_def)
qed

lemma round64_percent:
  assumes "0 \<le> x" and "x \<le> 100"
  shows "\<exists>y. round64 x = Finite y \<and> 0 \<le> y \<and> y \<le> 100"
proof (cases "x = 0")
  case True
  then show ?thesis by (simp add: round64_def)
next
  case False
  then have pos: "0 < x" using assms(1) by simp
  define e where "e = max (exponent \<bar>x\<bar>) (- 1022)"
  define m where "m = nat (52 - e)"
  define n where "n = roundHalfEven (x / pow2 (e - 52))"
  have e: "e \<le> 6" "- 1022 \<le> e"
    using exponent_le [of x] pos assms(2) by (simp_all add: e_def)
  then have p: "pow2 (e - 52) = 1 / 2 ^ m"
    by (simp add: pow2_def m_def)
  have m: "2 \<le> m" using e by (simp add: m_def)
  have "(100::real) * 2 ^ m = of_int (100 * 2 ^ m)" by simp
  moreover have "x / pow2 (e - 52) \<le> 100 * 2 ^ m" using assms(2) by (simp add: p)
  ultimately have "n \<le> 100 * 2 ^ m"
    unfolding n_def by (metis roundHalfEven_le)
  then have "real_of_int n \<le> 100 * 2 ^ m"
    by (metis \<open>(100::real) * 2 ^ m = of_int (100 * 2 ^ m)\<close> of_int_le_iff)
  then have up: "of_int n * pow2 (e - 52) \<le> 100" by (simp add: p field_simps)
  have "0 \<le> x / pow2 (e - 52)" using assms(1) by (simp add: p)
  then have "0 \<le> n" unfolding n_def by (rule roundHalfEven_nonneg)
  then have lo: "0 \<le> of_int n * pow2 (e - 52)" by (simp add: p)
  have "round64 x = Finite (of_int n * pow2 (e - 52))"
    using False e by (simp add: round64_def Let_def e_def [symmetric] n_def [symmetric])
  then show ?thesis using lo up by simp
qed

lemma float64ToInt_unit:
  assumes "0 \<le> r" and "r \<le> 1"
  shows "0 \<le> float64ToInt (fmul (Finite r) (Finite 100))
    \<and> float64ToInt (fmul (Finite r) (Finite 100)) \<le> 100"
proof -
  have "0 \<le> r * 100" "r * 100 \<le> 100" using assms by simp_all
  then obtain y where y: "round64 (r * 100) = Finite y" "0 \<le> y" "y \<le> 100"
    using round64_percent [of "r * 100"] by blast
  then show ?thesis
    using truncate_bounds [of y] by (simp add: float64ToInt_def Let_def)
qed

text \<open>
  The products and quotients are rounded: 29 seconds of a 100 second input are reported
  as 28 percent, since the \<open>float64\<close> nearest to 0.29 lies below it.
\<close>

lemma markerPercent_rounds:
  "markerPercent (Finite 100) (Finite 29000000) = 28"
  "markerPercent (Finite 100) (Finite 50000000) = 50"
  by code_simp+

lemma markerPercent_cases:
  "(0 \<le> markerPercent d x \<and> markerPercent d x \<le> 100) \<or> markerPercent d x = - (2 ^ 63)"
proof -
  define ratio where "ratio = fdiv (fdiv x (Finite 1000000)) d"
  show ?thesis
  proof (cases ratio)
    case (Finite r)
    consider "r < 0" | "0 \<le> r" "r \<le> 1" | "1 < r" by linarith
    then show ?thesis
    proof cases
      case 1
      then show ?thesis using Finite float64ToInt_unit [of 0]
        by (simp add: markerPercent_def Let_def ratio_def [symmetric])
    next
      case 2
      then show ?thesis using Finite float64ToInt_unit [of r]
        by (simp add: markerPercent_def Let_def ratio_def [symmetric])
    next
      case 3
      then show ?thesis using Finite float64ToInt_unit [of 1]
        by (simp add: markerPercent_def Let_def ratio_def [symmetric])
    qed
  next
    case PosInf
    then show ?thesis using float64ToInt_unit [of 1]
      by (simp add: markerPercent_def Let_def ratio_def [symmetric])
  next
    case NegInf
    then show ?thesis using float64ToInt_unit [of 0]
      by (simp add: markerPercent_def Let_def ratio_def [symmetric])
  next
    case NaN
    then show ?thesis
      by (simp add: markerPercent_def Let_def ratio_def [symmetric] float64ToInt_def)
  qed
qed

lemma markerPercent_le: "markerPercent d x \<le> 100"
  using markerPercent_cases [of d x] by auto

lemma scanStdout_Cons_cases:
  "cb \<in> set (scanStdout pf d (l # ls))
    \<Longrightarrow> cb \<in> set (scanStdout pf d ls)
        \<or> (\<exists>x. cb = (markerPercent d x, ''processing'', msgExtracting))
        \<or> cb = (100, ''processing'', ''finalizando arquivo'')"
  apply (simp only: scanStdout.simps Let_def split: if_splits)
   apply (auto split: option.splits if_splits)
  done

lemma scanStdout_le: "cb \<in> set (scanStdout pf d ls) \<Longrightarrow> fst cb \<le> 100"
proof (induction ls)
  case Nil
  then show ?case by simp
next
  case (Cons l ls)
  from scanStdout_Cons_cases [OF Cons.prems] show ?case
    using Cons.IH markerPercent_le by auto
qed

lemma ExtractAudio_le: "cb \<in> set (fst (ExtractAudio pf run)) \<Longrightarrow> fst cb \<le> 100"
  by (auto simp: ExtractAudio_def Let_def split: option.splits if_splits dest: scanStdout_le)

lemma transcribeLoop_le:
  "p \<le> 96 \<Longrightarrow> cb \<in> set (fst (transcribeLoop out p sel))
    \<Longrightarrow> fst cb \<le> 96 \<or> cb = (100, ''completed'', msgTranscriptionDone)"
proof (induction sel arbitrary: p)
  case Nil
  then show ?case by simp
next
  case (Cons c sel)
  show ?case
  proof (cases c)
    case (CtxDone e)
    then show ?thesis using Cons.prems by simp
  next
    case (ProcDone x)
    then show ?thesis using Cons.prems by (cases x) (auto simp: Let_def split: if_splits)
  next
    case Tick
    define p' where "p' = (if p < 90 then p + 7 else p)"
    have p': "p' \<le> 96" using Cons.prems(1) by (simp add: p'_def)
    have "cb = (p', ''processing'', msgTranscribing) \<or> cb \<in> set (fst (transcribeLoop out p' sel))"
      using Cons.prems(2) Tick by (auto simp: Let_def p'_def split: prod.splits)
    then show ?thesis using p' Cons.IH [OF p'] by auto
  qed
qed

lemma TranscribeAudio_le:
  "cb \<in> set (fst (TranscribeAudio model run))
    \<Longrightarrow> fst cb \<le> 96 \<or> cb = (100, ''completed'', msgTranscriptionDone)"
  using transcribeLoop_le [of 5 cb "buffer run" "selects run"]
  by (auto simp: TranscribeAudio_def Let_def split: option.splits if_splits prod.splits)

lemma extractionProgress_props:
  assumes "fst cb \<le> 100"
  shows "Status (upd (extractionProgress jobID cb now) j) = StatusProcessing
    \<and> TranscriptStatus (upd (extractionProgress jobID cb now) j) = TranscriptStatus j
    \<and> TranscriptProgress (upd (extractionProgress jobID cb now) j) = TranscriptProgress j
    \<and> 1 \<le> Progress (upd (extractionProgress jobID cb now) j)
    \<and> Progress (upd (extractionProgress jobID cb now) j) \<le> 100
    \<and> list_all (\<lambda>e. 1 \<le> EvProgress e \<and> EvProgress e \<le> 100)
         (evs (extractionProgress jobID cb now))"
  using assms by (cases cb) (simp add: extractionProgress_def Let_def)

lemma transcriptionProgress_props:
  assumes "fst cb \<le> 100"
  shows "TranscriptStatus (upd (transcriptionProgress jobID cb now) j) = StatusProcessing
    \<and> Status (upd (transcriptionProgress jobID cb now) j) = Status j
    \<and> Progress (upd (transcriptionProgress jobID cb now) j) = Progress j
    \<and> 1 \<le> TranscriptProgress (upd (transcriptionProgress jobID cb now) j)
    \<and> TranscriptProgress (upd (transcriptionProgress jobID cb now) j) \<le> 100
    \<and> list_all (\<lambda>e. 1 \<le> EvProgress e \<and> EvProgress e \<le> 100)
         (evs (transcriptionProgress jobID cb now))"
  using assms by (cases cb) (simp add: transcriptionProgress_def Let_def)

lemma failJob_props:
  "Status (upd (failJob jobID e now) j) = StatusFailed
    \<and> TranscriptStatus (upd (failJob jobID e now) j) = TranscriptStatus j
    \<and> TranscriptProgress (upd (failJob jobID e now) j) = TranscriptProgress j
    \<and> Progress (upd (failJob jobID e now) j) = Progress j
    \<and> list_all (\<lambda>e. EvProgress e = 0 \<and> EvStatus e = StatusFailed) (evs (failJob jobID e now))"
  by (simp add: failJob_def emptyEvent_def)

lemma failTranscription_props:
  "TranscriptStatus (upd (failTranscription jobID e now) j) = StatusFailed
    \<and> Status (upd (failTranscription jobID e now) j) = Status j
    \<and> Progress (upd (failTranscription jobID e now) j) = Progress j
    \<and> TranscriptProgress (upd (failTranscription jobID e now) j) = 0
    \<and> list_all (\<lambda>e. EvProgress e = 0 \<and> EvStatus e = StatusFailed)
         (evs (failTranscription jobID e now))"
  by (simp add: failTranscription_def emptyEvent_def)

lemma in_enumerate_snd: "(n, x) \<in> set (enumerate k xs) \<Longrightarrow> x \<in> set xs"
  by (auto simp: in_set_enumerate_eq)

lemma runExtraction_step:
  assumes "st \<in> set (steps (runExtraction env clock jobID (Some snap)))"
  shows "TranscriptStatus (upd st j) = TranscriptStatus j
    \<and> TranscriptProgress (upd st j) = TranscriptProgress j
    \<and> (Progress (upd st j) = Progress j \<or> (1 \<le> Progress (upd st j) \<and> Progress (upd st j) \<le> 100))
    \<and> list_all (\<lambda>e. 0 \<le> EvProgress e \<and> EvProgress e \<le> 100) (evs st)"
proof (cases "mkdirErr env")
  case (Some e)
  then have "st = failJob jobID (Wrap ''failed to create outputs dir: '' e) (clock 0)"
    using assms by (simp add: runExtraction_def Let_def)
  then show ?thesis using failJob_props [of jobID _ "clock 0" j]
    by (simp add: list_all_iff)
next
  case None
  obtain cbs err where ea: "ExtractAudio (parseFloat env) (ffmpeg env) = (cbs, err)"
    by (cases "ExtractAudio (parseFloat env) (ffmpeg env)")
  have le: "fst cb \<le> 100" if "cb \<in> set cbs" for cb
    using that ExtractAudio_le [of cb "parseFloat env" "ffmpeg env"] by (simp add: ea)
  from assms None ea consider
      (first) "\<exists>f. st = \<lparr>upd = (\<lambda>j. j\<lparr>Status := StatusProcessing, OutputName := fst f,
                                     OutputPath := snd f, UpdatedAt := clock 0\<rparr>), evs = []\<rparr>"
    | (progress) n cb where "cb \<in> set cbs" "st = extractionProgress jobID cb (clock n)"
    | (failed) e where "st = failJob jobID e (clock (Suc (length cbs)))"
    | (completed) "st = \<lparr>upd = (\<lambda>j. j\<lparr>Status := StatusCompleted, Progress := 100, Error := '''',
                                     UpdatedAt := clock (Suc (length cbs))\<rparr>),
                          evs = [emptyEvent\<lparr>EvID := jobID, EvStage := ''extraction'',
                                      EvStatus := StatusCompleted, EvProgress := 100,
                                      EvMessage := msgExtractionDone,
                                      EvDownloadURL := ''/download/'' @ jobID\<rparr>]\<rparr>"
    by (auto simp: runExtraction_def Let_def split: option.splits dest: in_enumerate_snd)
  then show ?thesis
  proof cases
    case first
    then show ?thesis by auto
  next
    case (progress n cb)
    then show ?thesis using extractionProgress_props [OF le, of cb jobID "clock n" j]
      by (auto simp: list_all_iff)
  next
    case (failed e)
    then show ?thesis using failJob_props [of jobID e _ j] by (simp add: list_all_iff)
  next
    case completed
    then show ?thesis by simp
  qed
qed

lemma runExtraction_returned: "returned (runExtraction env clock jobID snapshot)"
  by (simp add: runExtraction_def Let_def split: option.splits prod.splits)

lemma runExtraction_running:
  assumes "st \<in> set (butlast (steps (runExtraction env clock jobID (Some snap))))"
  shows "Status (upd st j) = StatusProcessing"
proof (cases "mkdirErr env")
  case (Some e)
  then show ?thesis using assms by (simp add: runExtraction_def Let_def)
next
  case None
  obtain cbs err where ea: "ExtractAudio (parseFloat env) (ffmpeg env) = (cbs, err)"
    by (cases "ExtractAudio (parseFloat env) (ffmpeg env)")
  from assms None ea consider
      (first) "\<exists>f. st = \<lparr>upd = (\<lambda>j. j\<lparr>Status := StatusProcessing, OutputName := fst f,
                                     OutputPath := snd f, UpdatedAt := clock 0\<rparr>), evs = []\<rparr>"
    | (progress) n cb where "st = extractionProgress jobID cb (clock n)"
    by (auto simp: runExtraction_def Let_def butlast_append split: option.splits)
  then show ?thesis
  proof cases
    case first
    then show ?thesis by auto
  next
    case (progress n cb)
    then show ?thesis by (cases cb) (simp add: extractionProgress_def Let_def)
  qed
qed

lemma runTranscription_step:
  assumes "st \<in> set (steps (runTranscription env clock jobID (Some snap)))"
  shows "Status (upd st j) = Status j \<and> Progress (upd st j) = Progress j
    \<and> 0 \<le> TranscriptProgress (upd st j) \<and> TranscriptProgress (upd st j) \<le> 100
    \<and> list_all (\<lambda>e. 0 \<le> EvProgress e \<and> EvProgress e \<le> 100) (evs st)"
proof (cases "OutputPath snap = ''''")
  case True
  then have "st = failTranscription jobID (ErrorString msgNoAudio) (clock 0)"
    using assms by (simp add: runTranscription_def)
  then show ?thesis using failTranscription_props [of jobID _ "clock 0" j]
    by (simp add: list_all_iff)
next
  case False
  obtain cbs r where ta: "TranscribeAudio (whisperModel env) (whisper env) = (cbs, r)"
    by (cases "TranscribeAudio (whisperModel env) (whisper env)")
  have le: "fst cb \<le> 100" if "cb \<in> set cbs" for cb
    using that TranscribeAudio_le [of cb "whisperModel env" "whisper env"] by (auto simp: ta)
  from assms False ta consider
      (first) "\<exists>f. st = \<lparr>upd = (\<lambda>j. j\<lparr>TranscriptStatus := StatusProcessing,
                                     TranscriptProgress := 1, TranscriptError := '''',
                                     TranscriptTXTPath := fst f,
                                     TranscriptTXTName := Base (fst f),
                                     TranscriptSRTPath := snd f,
                                     TranscriptSRTName := Base (snd f),
                                     UpdatedAt := clock 0\<rparr>), evs = []\<rparr>"
    | (progress) n cb where "cb \<in> set cbs" "st = transcriptionProgress jobID cb (clock n)"
    | (failed) e where "st = failTranscription jobID e (clock (Suc (length cbs)))"
    | (completed) "st = \<lparr>upd = (\<lambda>j. j\<lparr>TranscriptStatus := StatusCompleted,
                                           TranscriptProgress := 100, TranscriptError := '''',
                                           UpdatedAt := clock (Suc (length cbs))\<rparr>),
                             evs = [emptyEvent\<lparr>EvID := jobID, EvStage := ''transcription'',
                                      EvStatus := StatusCompleted, EvProgress := 100,
                                      EvMessage := msgTranscriptionDone,
                                      EvTranscriptTXTURL :=
                                        ''/transcript/'' @ jobID @ ''?format=txt'',
                                      EvTranscriptSRTURL :=
                                        ''/transcript/'' @ jobID @ ''?format=srt''\<rparr>]\<rparr>"
    by (auto simp: runTranscription_def Let_def split: option.splits if_splits
             dest: in_enumerate_snd)
  then show ?thesis
  proof cases
    case first
    then show ?thesis by auto
  next
    case (progress n cb)
    then show ?thesis using transcriptionProgress_props [OF le, of cb jobID "clock n" j]
      by (auto simp: list_all_iff)
  next
    case (failed e)
    then show ?thesis using failTranscription_props [of jobID e _ j] by (simp add: list_all_iff)
  next
    case completed
    then show ?thesis by simp
  qed
qed

lemma runTranscription_running:
  assumes "st \<in> set (if returned (runTranscription env clock jobID (Some snap))
                     then butlast (steps (runTranscription env clock jobID (Some snap)))
                     else steps (runTranscription env clock jobID (Some snap)))"
  shows "TranscriptStatus (upd st j) = StatusProcessing"
proof (cases "OutputPath snap = ''''")
  case True
  then show ?thesis using assms by (simp add: runTranscription_def)
next
  case False
  obtain cbs r where ta: "TranscribeAudio (whisperModel env) (whisper env) = (cbs, r)"
    by (cases "TranscribeAudio (whisperModel env) (whisper env)")
  from assms False ta consider
      (first) "\<exists>f. st = \<lparr>upd = (\<lambda>j. j\<lparr>TranscriptStatus := StatusProcessing,
                                     TranscriptProgress := 1, TranscriptError := '''',
                                     TranscriptTXTPath := fst f,
                                     TranscriptTXTName := Base (fst f),
                                     TranscriptSRTPath := snd f,
                                     TranscriptSRTName := Base (snd f),
                                     UpdatedAt := clock 0\<rparr>), evs = []\<rparr>"
    | (progress) n cb where "st = transcriptionProgress jobID cb (clock n)"
    by (auto simp: runTranscription_def Let_def butlast_append split: option.splits if_splits)
  then show ?thesis
  proof cases
    case first
    then show ?thesis by auto
  next
    case (progress n cb)
    then show ?thesis by (cases cb) (simp add: transcriptionProgress_def Let_def)
  qed
qed

subsection \<open>The invariant of the running program\<close>

lemma updateJob_apply:
  "updateJob jobID f jobs k = (if k = jobID then map_option f (jobs jobID) else jobs k)"
  by (simp add: updateJob_def split: option.splits)

lemma cleanup_keeps: "fst (cleanup now ttl order jobs) k = Some j \<Longrightarrow> jobs k = Some j"
proof -
  assume a: "fst (cleanup now ttl order jobs) k = Some j"
  have "fst (cleanup now ttl order jobs) k = fst (cleanupScan (now - ttl) order jobs []) k"
    by (simp add: cleanup_def split: prod.splits)
  with a show ?thesis
    by (simp add: cleanupScan_registry split: if_splits option.splits)
qed

lemma startExtraction_rejected:
  "\<not> worker (startExtraction now jobID jobs)
    \<Longrightarrow> registry (startExtraction now jobID jobs) = jobs \<and> events (startExtraction now jobID jobs) = []"
  by (cases "jobs jobID") (auto simp: startExtraction_def split: if_splits)

lemma startExtraction_accepted:
  "worker (startExtraction now jobID jobs)
    \<Longrightarrow> \<exists>job. jobs jobID = Some job \<and> Status job \<noteq> StatusProcessing \<and> Status job \<noteq> StatusQueued
          \<and> Status job \<noteq> StatusCompleted
          \<and> registry (startExtraction now jobID jobs) =
              jobs(jobID \<mapsto> job\<lparr>Status := StatusQueued, Progress := 1, Error := '''',
                  TranscriptStatus := StatusNotStarted, TranscriptProgress := 0,
                  TranscriptError := '''', TranscriptTXTPath := '''', TranscriptTXTName := '''',
                  TranscriptSRTPath := '''', TranscriptSRTName := '''', UpdatedAt := now\<rparr>)"
  by (cases "jobs jobID") (auto simp: startExtraction_def split: if_splits)

lemma startTranscription_rejected:
  "\<not> worker (startTranscription now jobID jobs)
    \<Longrightarrow> registry (startTranscription now jobID jobs) = jobs
        \<and> events (startTranscription now jobID jobs) = []"
  by (cases "jobs jobID") (auto simp: startTranscription_def split: if_splits)

lemma startTranscription_accepted:
  "worker (startTranscription now jobID jobs)
    \<Longrightarrow> \<exists>job. jobs jobID = Some job \<and> Status job = StatusCompleted
          \<and> TranscriptStatus job \<noteq> StatusProcessing \<and> TranscriptStatus job \<noteq> StatusQueued
          \<and> TranscriptStatus job \<noteq> StatusCompleted
          \<and> registry (startTranscription now jobID jobs) =
              jobs(jobID \<mapsto> job\<lparr>TranscriptStatus := StatusQueued, TranscriptProgress := 1,
                  TranscriptError := '''', UpdatedAt := now\<rparr>)"
  by (cases "jobs jobID") (auto simp: startTranscription_def split: if_splits)

lemma inv_triggerExtraction:
  assumes IH: "\<And>k j. sysJobs s k = Some j \<Longrightarrow> jobInv s k j"
    and prems: "sysJobs (triggerExtraction now jobID s) k = Some j"
  shows "jobInv (triggerExtraction now jobID s) k j"
proof -
  define out where "out = startExtraction now jobID (sysJobs s)"
  have eq: "triggerExtraction now jobID s =
      s\<lparr>sysJobs := registry out,
        extWorkers := (extWorkers s)(jobID := extWorkers s jobID + (if worker out then 1 else 0))\<rparr>"
    by (simp add: triggerExtraction_def out_def Let_def)
  have p: "registry out k = Some j" using prems by (simp add: eq)
  show ?thesis
  proof (cases "worker out")
    case False
    then have "registry out = sysJobs s"
      using startExtraction_rejected [of now jobID "sysJobs s"] by (simp add: out_def)
    then have "sysJobs s k = Some j" using p by simp
    from IH [OF this] False show ?thesis by (simp add: jobInv_def eq)
  next
    case True
    then obtain job where job: "sysJobs s jobID = Some job" "Status job \<noteq> StatusProcessing"
      "Status job \<noteq> StatusQueued" "Status job \<noteq> StatusCompleted"
      "registry out = (sysJobs s)(jobID \<mapsto> job\<lparr>Status := StatusQueued, Progress := 1, Error := '''',
                  TranscriptStatus := StatusNotStarted, TranscriptProgress := 0,
                  TranscriptError := '''', TranscriptTXTPath := '''', TranscriptTXTName := '''',
                  TranscriptSRTPath := '''', TranscriptSRTName := '''', UpdatedAt := now\<rparr>)"
      using startExtraction_accepted [of now jobID "sysJobs s"] by (auto simp: out_def)
    show ?thesis
    proof (cases "k = jobID")
      case False
      then have "sysJobs s k = Some j" using p job(5) by simp
      from IH [OF this] False show ?thesis by (simp add: jobInv_def eq)
    next
      case k: True
      from IH [OF job(1)] job(2-4)
      have "extWorkers s jobID = 0" "trWorkers s jobID = 0"
        by (auto simp: jobInv_def)
      then show ?thesis using k True p job(5)
        by (auto simp: jobInv_def eq)
    qed
  qed
qed

lemma inv_triggerTranscription:
  assumes IH: "\<And>k j. sysJobs s k = Some j \<Longrightarrow> jobInv s k j"
    and prems: "sysJobs (triggerTranscription now jobID s) k = Some j"
  shows "jobInv (triggerTranscription now jobID s) k j"
proof -
  define out where "out = startTranscription now jobID (sysJobs s)"
  have eq: "triggerTranscription now jobID s =
      s\<lparr>sysJobs := registry out,
        trWorkers := (trWorkers s)(jobID := trWorkers s jobID + (if worker out then 1 else 0))\<rparr>"
    by (simp add: triggerTranscription_def out_def Let_def)
  have p: "registry out k = Some j" using prems by (simp add: eq)
  show ?thesis
  proof (cases "worker out")
    case False
    then have "registry out = sysJobs s"
      using startTranscription_rejected [of now jobID "sysJobs s"] by (simp add: out_def)
    then have "sysJobs s k = Some j" using p by simp
    from IH [OF this] False show ?thesis by (simp add: jobInv_def eq)
  next
    case True
    then obtain job where job: "sysJobs s jobID = Some job" "Status job = StatusCompleted"
      "TranscriptStatus job \<noteq> StatusProcessing" "TranscriptStatus job \<noteq> StatusQueued"
      "TranscriptStatus job \<noteq> StatusCompleted"
      "registry out = (sysJobs s)(jobID \<mapsto> job\<lparr>TranscriptStatus := StatusQueued,
          TranscriptProgress := 1, TranscriptError := '''', UpdatedAt := now\<rparr>)"
      using startTranscription_accepted [of now jobID "sysJobs s"] by (auto simp: out_def)
    show ?thesis
    proof (cases "k = jobID")
      case False
      then have "sysJobs s k = Some j" using p job(6) by simp
      from IH [OF this] False show ?thesis by (simp add: jobInv_def eq)
    next
      case k: True
      from IH [OF job(1)] job(2-5)
      have "trWorkers s jobID = 0" "extWorkers s jobID \<le> 1"
        "extWorkers s jobID = 1 \<longrightarrow> Status job = StatusQueued \<or> Status job = StatusProcessing"
        "0 \<le> Progress job \<and> Progress job \<le> 100"
        by (auto simp: jobInv_def)
      then show ?thesis using k True p job(2,6)
        by (auto simp: jobInv_def eq)
    qed
  qed
qed

lemma inv_extractionWorkerStep:
  assumes IH: "\<And>k j. sysJobs s k = Some j \<Longrightarrow> jobInv s k j"
    and live: "0 < extWorkers s jobID"
    and tr: "tr = runExtraction env clock jobID (Some snapshot)"
    and n: "n < length (steps tr)"
    and prems: "sysJobs (extractionWorkerStep tr n jobID s) k = Some j"
  shows "jobInv (extractionWorkerStep tr n jobID s) k j"
proof (cases "k = jobID")
  case False
  then have "sysJobs s k = Some j"
    using prems by (simp add: updateJob_apply extractionWorkerStep_def)
  from IH [OF this] False show ?thesis by (simp add: jobInv_def extractionWorkerStep_def)
next
  case True
  define st where "st = steps tr ! n"
  from prems True obtain j0 where j0: "sysJobs s jobID = Some j0" "j = upd st j0"
    by (auto simp: updateJob_apply st_def extractionWorkerStep_def)
  note inv = IH [OF j0(1)]
  have mem: "st \<in> set (steps (runExtraction env clock jobID (Some snapshot)))"
    using n tr by (simp add: st_def)
  note props = runExtraction_step [OF mem, of j0]
  have one: "extWorkers s jobID = 1" using inv live by (simp add: jobInv_def)
  then have q: "Status j0 = StatusQueued \<or> Status j0 = StatusProcessing"
    using inv by (simp add: jobInv_def)
  then have ns: "TranscriptStatus j0 = StatusNotStarted" using inv by (auto simp: jobInv_def)
  have run: "Status (upd st j0) = StatusProcessing" if "Suc n \<noteq> length (steps tr)"
  proof -
    have b: "n < length (butlast (steps tr))" using that n by simp
    then have "butlast (steps tr) ! n \<in> set (butlast (steps tr))" by (rule nth_mem)
    moreover have "butlast (steps tr) ! n = st"
      using b by (simp add: nth_butlast st_def)
    ultimately have "st \<in> set (butlast (steps tr))" by simp
    then show ?thesis unfolding tr by (rule runExtraction_running)
  qed
  have ret: "returned tr" unfolding tr by (rule runExtraction_returned)
  show ?thesis
    using True j0 props one ns run inv ret
    by (auto simp: jobInv_def extractionWorkerStep_def)
qed

lemma inv_transcriptionWorkerStep:
  assumes IH: "\<And>k j. sysJobs s k = Some j \<Longrightarrow> jobInv s k j"
    and live: "0 < trWorkers s jobID"
    and tr: "tr = runTranscription env clock jobID (Some snapshot)"
    and n: "n < length (steps tr)"
    and prems: "sysJobs (transcriptionWorkerStep tr n jobID s) k = Some j"
  shows "jobInv (transcriptionWorkerStep tr n jobID s) k j"
proof (cases "k = jobID")
  case False
  then have "sysJobs s k = Some j"
    using prems by (simp add: updateJob_apply transcriptionWorkerStep_def)
  from IH [OF this] False show ?thesis by (simp add: jobInv_def transcriptionWorkerStep_def)
next
  case True
  define st where "st = steps tr ! n"
  from prems True obtain j0 where j0: "sysJobs s jobID = Some j0" "j = upd st j0"
    by (auto simp: updateJob_apply st_def transcriptionWorkerStep_def)
  note inv = IH [OF j0(1)]
  have mem: "st \<in> set (steps (runTranscription env clock jobID (Some snapshot)))"
    using n tr by (simp add: st_def)
  note props = runTranscription_step [OF mem, of j0]
  have one: "trWorkers s jobID = 1" using inv live by (simp add: jobInv_def)
  then have q: "TranscriptStatus j0 = StatusQueued \<or> TranscriptStatus j0 = StatusProcessing"
    using inv by (simp add: jobInv_def)
  then have c: "Status j0 = StatusCompleted" using inv by (auto simp: jobInv_def)
  have run: "TranscriptStatus (upd st j0) = StatusProcessing"
    if "\<not> (returned tr \<and> Suc n = length (steps tr))"
  proof -
    have "st \<in> set (if returned tr then butlast (steps tr) else steps tr)"
    proof (cases "returned tr")
      case True
      then have b: "n < length (butlast (steps tr))" using that n by simp
      then have "butlast (steps tr) ! n \<in> set (butlast (steps tr))" by (rule nth_mem)
      moreover have "butlast (steps tr) ! n = st"
        using b by (simp add: nth_butlast st_def)
      ultimately show ?thesis using True by simp
    next
      case False
      then show ?thesis using n by (simp add: st_def)
    qed
    then show ?thesis unfolding tr by (rule runTranscription_running)
  qed
  show ?thesis
    using True j0 props one c run inv
    by (auto simp: jobInv_def transcriptionWorkerStep_def)
qed

lemma reachable_jobInv:
  "reachable s \<Longrightarrow> sysJobs s k = Some j \<Longrightarrow> jobInv s k j"
proof (induction arbitrary: k j rule: reachable.induct)
  case start
  then show ?case by (simp add: initial_def)
next
  case (uploaded s jobID tbl Join uploadsDir now filename formatValue qualityValue)
  show ?case
  proof (cases "k = jobID")
    case True
    then show ?thesis using uploaded.prems uploaded.hyps
      by (auto simp: jobInv_def upload_def newJob_def Let_def)
  next
    case False
    then have "sysJobs s k = Some j" using uploaded.prems by (simp add: upload_def)
    from uploaded.IH [OF this] show ?thesis by (simp add: jobInv_def)
  qed
next
  case (extractionTriggered s now jobID)
  then show ?case by (intro inv_triggerExtraction)
next
  case (transcriptionTriggered s now jobID)
  then show ?case by (intro inv_triggerTranscription)
next
  case (extractionStep s jobID tr env clock snapshot n)
  from extractionStep.IH extractionStep.hyps(2-4) extractionStep.prems
  show ?case by (rule inv_extractionWorkerStep)
next
  case (extractionNoJob s jobID)
  then show ?case by (auto simp: jobInv_def getJob_def)
next
  case (transcriptionStep s jobID tr env clock snapshot n)
  from transcriptionStep.IH transcriptionStep.hyps(2-4) transcriptionStep.prems
  show ?case by (rule inv_transcriptionWorkerStep)
next
  case (transcriptionNoJob s jobID)
  then show ?case by (auto simp: jobInv_def getJob_def)
next
  case (swept s order now ttl)
  then have "sysJobs s k = Some j"
    using cleanup_keeps [of now ttl order "sysJobs s" k j] by (simp add: sweep_def)
  from swept.IH [OF this] show ?case by (simp add: jobInv_def sweep_def)
qed

subsection \<open>A run of the program\<close>

lemma reachable_demoSys1: "reachable demoSys1"
  unfolding demoSys1_def by (rule reachable.uploaded [OF reachable.start]) (simp_all add: initial_def)

lemma reachable_demoSys2: "reachable demoSys2"
  unfolding demoSys2_def by (rule reachable.extractionTriggered) (rule reachable_demoSys1)

lemma demo_extraction_length:
  "length (steps (runExtraction (demoEnv goodRun) int ''a1b2'' (Some demoJob))) = 6"
  by code_simp

lemma demo_transcription_length:
  "length (steps (runTranscription demoWhisperEnv int ''a1b2''
      (Some (demoJob\<lparr>OutputPath := ''outputs/a1b2.mp3''\<rparr>)))) = 5"
  by code_simp

lemma demo_workers:
  "extWorkers demoSys2 ''a1b2'' = 1" "extWorkers demoSys3 ''a1b2'' = 1"
  "trWorkers demoSys5 ''a1b2'' = 1" "trWorkers demoSys6 ''a1b2'' = 1"
  by code_simp+

lemma reachable_demoSys3: "reachable demoSys3"
  unfolding demoSys3_def
  by (rule reachable.extractionStep [OF reachable_demoSys2 _ refl])
     (simp_all add: demo_workers demo_extraction_length)

lemma reachable_demoSys4: "reachable demoSys4"
  unfolding demoSys4_def
  by (rule reachable.extractionStep [OF reachable_demoSys3 _ refl])
     (simp_all add: demo_workers demo_extraction_length)

lemma reachable_demoSys5: "reachable demoSys5"
  unfolding demoSys5_def by (rule reachable.transcriptionTriggered) (rule reachable_demoSys4)

lemma reachable_demoSys6: "reachable demoSys6"
  unfolding demoSys6_def
  by (rule reachable.transcriptionStep [OF reachable_demoSys5 _ refl])
     (simp_all add: demo_workers demo_transcription_length)

lemma reachable_demoSys7: "reachable demoSys7"
  unfolding demoSys7_def
  by (rule reachable.transcriptionStep [OF reachable_demoSys6 _ refl])
     (simp_all add: demo_workers demo_transcription_length)

lemma demoSys7_job: "sysJobs demoSys7 ''a1b2'' = Some demoFinalJob"
  by code_simp

subsection \<open>Repeated triggers\<close>

text \<open>
  C1. For every job in the registry of a reachable state and each stage: while the stage
  is \<open>queued\<close> or \<open>processing\<close> its trigger answers 202 \<open>already processing\<close>, and once
  the stage is \<open>completed\<close> the trigger answers 200 with the existing result (the
  download URL, or the two transcript URLs); in both cases the registry stays as it was,
  nothing is broadcast and no worker is started. So a second trigger from such a state
  has the outcome of the first.
\<close>

theorem retrigger_rejected_or_cached:
  assumes "reachable s" and "sysJobs s jobID = Some job"
  shows
    "(Status job = StatusQueued \<or> Status job = StatusProcessing \<longrightarrow>
        startExtraction now jobID (sysJobs s) =
          \<lparr>response = RespondJSON 202 [(''status'', ''already_processing'')],
           registry = sysJobs s, events = [], worker = False\<rparr>)
     \<and> (Status job = StatusCompleted \<longrightarrow>
        startExtraction now jobID (sysJobs s) =
          \<lparr>response = RespondJSON 200
             [(''status'', ''already_completed''), (''download_url'', ''/download/'' @ ID job)],
           registry = sysJobs s, events = [], worker = False\<rparr>)
     \<and> (TranscriptStatus job = StatusQueued \<or> TranscriptStatus job = StatusProcessing \<longrightarrow>
        startTranscription now jobID (sysJobs s) =
          \<lparr>response = RespondJSON 202 [(''status'', ''transcription_already_processing'')],
           registry = sysJobs s, events = [], worker = False\<rparr>)
     \<and> (TranscriptStatus job = StatusCompleted \<longrightarrow>
        startTranscription now jobID (sysJobs s) =
          \<lparr>response = RespondJSON 200
             [(''status'', ''transcription_already_completed''),
              (''transcript_txt_url'', ''/transcript/'' @ jobID @ ''?format=txt''),
              (''transcript_srt_url'', ''/transcript/'' @ jobID @ ''?format=srt'')],
           registry = sysJobs s, events = [], worker = False\<rparr>)
     \<and> (Status job = StatusQueued \<or> Status job = StatusProcessing
          \<or> Status job = StatusCompleted \<longrightarrow>
        startExtraction now' jobID (registry (startExtraction now jobID (sysJobs s)))
          = startExtraction now jobID (sysJobs s))
     \<and> (TranscriptStatus job = StatusQueued \<or> TranscriptStatus job = StatusProcessing
          \<or> TranscriptStatus job = StatusCompleted \<longrightarrow>
        startTranscription now' jobID (registry (startTranscription now jobID (sysJobs s)))
          = startTranscription now jobID (sysJobs s))"
proof -
  have c: "TranscriptStatus job \<noteq> StatusNotStarted \<longrightarrow> Status job = StatusCompleted"
    using reachable_jobInv [OF assms] by (simp add: jobInv_def)
  show ?thesis
    using assms(2) c by (auto simp: startExtraction_def startTranscription_def)
qed

theorem retrigger_rejected_or_cached_witness:
  "reachable demoSys7 \<and> sysJobs demoSys7 ''a1b2'' = Some demoFinalJob
   \<and> Status demoFinalJob = StatusCompleted \<and> TranscriptStatus demoFinalJob = StatusCompleted
   \<and> startExtraction 30 ''a1b2'' (sysJobs demoSys7) =
        \<lparr>response = RespondJSON 200
           [(''status'', ''already_completed''), (''download_url'', ''/download/a1b2'')],
         registry = sysJobs demoSys7, events = [], worker = False\<rparr>
   \<and> startTranscription 30 ''a1b2'' (sysJobs demoSys7) =
        \<lparr>response = RespondJSON 200
           [(''status'', ''transcription_already_completed''),
            (''transcript_txt_url'', ''/transcript/a1b2?format=txt''),
            (''transcript_srt_url'', ''/transcript/a1b2?format=srt'')],
         registry = sysJobs demoSys7, events = [], worker = False\<rparr>
   \<and> startExtraction 31 ''a1b2'' (registry (startExtraction 30 ''a1b2'' (sysJobs demoSys7)))
        = startExtraction 30 ''a1b2'' (sysJobs demoSys7)
   \<and> startTranscription 31 ''a1b2'' (registry (startTranscription 30 ''a1b2'' (sysJobs demoSys7)))
        = startTranscription 30 ''a1b2'' (sysJobs demoSys7)"
proof -
  have st: "Status demoFinalJob = StatusCompleted" "TranscriptStatus demoFinalJob = StatusCompleted"
    by (simp_all add: demoFinalJob_def)
  have dl: "''/download/'' @ ID demoFinalJob = ''/download/a1b2''"
    "''/transcript/'' @ ''a1b2'' @ ''?format=txt'' = ''/transcript/a1b2?format=txt''"
    "''/transcript/'' @ ''a1b2'' @ ''?format=srt'' = ''/transcript/a1b2?format=srt''"
    by (simp_all add: demoFinalJob_def)
  note t = retrigger_rejected_or_cached [OF reachable_demoSys7 demoSys7_job, of 30 31,
      unfolded dl]
  from t st have a: "startExtraction 30 ''a1b2'' (sysJobs demoSys7) =
        \<lparr>response = RespondJSON 200
           [(''status'', ''already_completed''), (''download_url'', ''/download/a1b2'')],
         registry = sysJobs demoSys7, events = [], worker = False\<rparr>"
    by blast
  from t st have b: "startTranscription 30 ''a1b2'' (sysJobs demoSys7) =
        \<lparr>response = RespondJSON 200
           [(''status'', ''transcription_already_completed''),
            (''transcript_txt_url'', ''/transcript/a1b2?format=txt''),
            (''transcript_srt_url'', ''/transcript/a1b2?format=srt'')],
         registry = sysJobs demoSys7, events = [], worker = False\<rparr>"
    by blast
  from t st have c:
    "startExtraction 31 ''a1b2'' (registry (startExtraction 30 ''a1b2'' (sysJobs demoSys7)))
        = startExtraction 30 ''a1b2'' (sysJobs demoSys7)"
    by blast
  from t st have d:
    "startTranscription 31 ''a1b2'' (registry (startTranscription 30 ''a1b2'' (sysJobs demoSys7)))
        = startTranscription 30 ''a1b2'' (sysJobs demoSys7)"
    by blast
  from reachable_demoSys7 demoSys7_job st a b c d show ?thesis by blast
qed

subsection \<open>Progress lies between 0 and 100\<close>

lemma broadcastsOf_runExtraction:
  "list_all (\<lambda>e. 0 \<le> EvProgress e \<and> EvProgress e \<le> 100)
     (broadcastsOf (steps (runExtraction env clock jobID snapshot)))"
proof (cases snapshot)
  case None
  then show ?thesis by (simp add: runExtraction_def broadcastsOf_def)
next
  case (Some snap)
  show ?thesis
    unfolding broadcastsOf_def Some list_all_iff
  proof
    fix e
    assume "e \<in> set (concat (map evs (steps (runExtraction env clock jobID (Some snap)))))"
    then obtain st where st: "st \<in> set (steps (runExtraction env clock jobID (Some snap)))"
      "e \<in> set (evs st)" by auto
    from runExtraction_step [OF st(1)] st(2)
    show "0 \<le> EvProgress e \<and> EvProgress e \<le> 100" by (simp add: list_all_iff)
  qed
qed

lemma broadcastsOf_runTranscription:
  "list_all (\<lambda>e. 0 \<le> EvProgress e \<and> EvProgress e \<le> 100)
     (broadcastsOf (steps (runTranscription env clock jobID snapshot)))"
proof (cases snapshot)
  case None
  then show ?thesis by (simp add: runTranscription_def broadcastsOf_def)
next
  case (Some snap)
  show ?thesis
    unfolding broadcastsOf_def Some list_all_iff
  proof
    fix e
    assume "e \<in> set (concat (map evs (steps (runTranscription env clock jobID (Some snap)))))"
    then obtain st where st: "st \<in> set (steps (runTranscription env clock jobID (Some snap)))"
      "e \<in> set (evs st)" by auto
    from runTranscription_step [OF st(1)] st(2)
    show "0 \<le> EvProgress e \<and> EvProgress e \<le> 100" by (simp add: list_all_iff)
  qed
qed

lemma runExtraction_success_last:
  assumes "mkdirErr env = None" and "snd (ExtractAudio (parseFloat env) (ffmpeg env)) = None"
  shows "broadcastsOf (steps (runExtraction env clock jobID (Some snap))) \<noteq> []
    \<and> EvStatus (last (broadcastsOf (steps (runExtraction env clock jobID (Some snap)))))
        = StatusCompleted
    \<and> EvProgress (last (broadcastsOf (steps (runExtraction env clock jobID (Some snap))))) = 100
    \<and> EvDownloadURL (last (broadcastsOf (steps (runExtraction env clock jobID (Some snap)))))
        = ''/download/'' @ jobID"
proof -
  obtain cbs where ea: "ExtractAudio (parseFloat env) (ffmpeg env) = (cbs, None)"
    using assms(2) by (cases "ExtractAudio (parseFloat env) (ffmpeg env)") auto
  show ?thesis
    using assms(1) ea by (simp add: runExtraction_def Let_def broadcastsOf_def)
qed

lemma runTranscription_success_last:
  assumes "OutputPath snap \<noteq> ''''"
    and "snd (TranscribeAudio (whisperModel env) (whisper env)) = Some None"
    and "txtExists env" and "srtExists env"
  shows "broadcastsOf (steps (runTranscription env clock jobID (Some snap))) \<noteq> []
    \<and> EvStatus (last (broadcastsOf (steps (runTranscription env clock jobID (Some snap)))))
        = StatusCompleted
    \<and> EvProgress (last (broadcastsOf (steps (runTranscription env clock jobID (Some snap)))))
        = 100"
proof -
  obtain cbs where ta: "TranscribeAudio (whisperModel env) (whisper env) = (cbs, Some None)"
    using assms(2) by (cases "TranscribeAudio (whisperModel env) (whisper env)") auto
  show ?thesis
    using assms(1,3,4) ta by (simp add: runTranscription_def Let_def broadcastsOf_def)
qed

lemma trigger_events:
  "list_all (\<lambda>e. 0 \<le> EvProgress e \<and> EvProgress e \<le> 100) (events (startExtraction now jobID jobs))"
  "list_all (\<lambda>e. 0 \<le> EvProgress e \<and> EvProgress e \<le> 100)
     (events (startTranscription now jobID jobs))"
  by (simp_all add: startExtraction_def startTranscription_def split: option.splits)

text \<open>
  C4. The progress stored on a job of a reachable state, for either stage, lies in
  [0,100], and so does the progress of every event: the one sent to an observer that
  attaches, those of the two triggers, and those a run of either worker broadcasts. A
  run of a worker that succeeds ends with an event of status \<open>completed\<close> and progress
  100. On the way there: the percent the extraction adapter computes from a marker lies
  in [0,100], except that a ratio that is not a number passes both comparisons of the
  clamp and converts to the least integer; the ticker of the transcription adapter stays
  at or below 96; and the callback of either worker raises the percent to at least 1.
\<close>

theorem progress_between_0_and_100:
  assumes "reachable s" and "sysJobs s k = Some job"
  shows
    "0 \<le> Progress job \<and> Progress job \<le> 100
     \<and> 0 \<le> TranscriptProgress job \<and> TranscriptProgress job \<le> 100
     \<and> 0 \<le> EvProgress (currentProgressEvent job) \<and> EvProgress (currentProgressEvent job) \<le> 100
     \<and> list_all (\<lambda>e. 0 \<le> EvProgress e \<and> EvProgress e \<le> 100)
          (events (startExtraction now jobID (sysJobs s))
           @ events (startTranscription now jobID (sysJobs s))
           @ broadcastsOf (steps (runExtraction env clock jobID snapshot))
           @ broadcastsOf (steps (runTranscription tenv clock jobID snapshot)))
     \<and> (mkdirErr env = None \<and> snd (ExtractAudio (parseFloat env) (ffmpeg env)) = None \<longrightarrow>
          broadcastsOf (steps (runExtraction env clock jobID (Some snap))) \<noteq> []
          \<and> EvStatus (last (broadcastsOf (steps (runExtraction env clock jobID (Some snap)))))
              = StatusCompleted
          \<and> EvProgress (last (broadcastsOf (steps (runExtraction env clock jobID (Some snap)))))
              = 100)
     \<and> (OutputPath snap \<noteq> ''''
          \<and> snd (TranscribeAudio (whisperModel tenv) (whisper tenv)) = Some None
          \<and> txtExists tenv \<and> srtExists tenv \<longrightarrow>
          broadcastsOf (steps (runTranscription tenv clock jobID (Some snap))) \<noteq> []
          \<and> EvStatus (last (broadcastsOf (steps (runTranscription tenv clock jobID (Some snap)))))
              = StatusCompleted
          \<and> EvProgress (last (broadcastsOf (steps (runTranscription tenv clock jobID (Some snap)))))
              = 100)
     \<and> ((0 \<le> markerPercent duration outMs \<and> markerPercent duration outMs \<le> 100)
          \<or> markerPercent duration outMs = - (2 ^ 63))
     \<and> list_all (\<lambda>cb. fst cb \<le> 96 \<or> cb = (100, ''completed'', msgTranscriptionDone))
          (fst (TranscribeAudio (whisperModel tenv) (whisper tenv)))
     \<and> list_all (\<lambda>e. 1 \<le> EvProgress e)
          (evs (extractionProgress jobID cb now) @ evs (transcriptionProgress jobID cb now))"
proof -
  note inv = reachable_jobInv [OF assms]
  have stored: "0 \<le> Progress job \<and> Progress job \<le> 100
     \<and> 0 \<le> TranscriptProgress job \<and> TranscriptProgress job \<le> 100"
    using inv by (simp add: jobInv_def)
  then have current:
    "0 \<le> EvProgress (currentProgressEvent job) \<and> EvProgress (currentProgressEvent job) \<le> 100"
    by (simp add: currentProgressEvent_def Let_def)
  have evsAll: "list_all (\<lambda>e. 0 \<le> EvProgress e \<and> EvProgress e \<le> 100)
          (events (startExtraction now jobID (sysJobs s))
           @ events (startTranscription now jobID (sysJobs s))
           @ broadcastsOf (steps (runExtraction env clock jobID snapshot))
           @ broadcastsOf (steps (runTranscription tenv clock jobID snapshot)))"
    using trigger_events [of now jobID "sysJobs s"]
      broadcastsOf_runExtraction [of env clock jobID snapshot]
      broadcastsOf_runTranscription [of tenv clock jobID snapshot]
    by simp
  have ticker: "list_all (\<lambda>cb. fst cb \<le> 96 \<or> cb = (100, ''completed'', msgTranscriptionDone))
          (fst (TranscribeAudio (whisperModel tenv) (whisper tenv)))"
    unfolding list_all_iff using TranscribeAudio_le by blast
  have floor1: "list_all (\<lambda>e. 1 \<le> EvProgress e)
          (evs (extractionProgress jobID cb now) @ evs (transcriptionProgress jobID cb now))"
    by (cases cb) (simp add: extractionProgress_def transcriptionProgress_def Let_def)
  from stored current evsAll ticker floor1 markerPercent_cases [of duration outMs]
    runExtraction_success_last [of env clock jobID snap]
    runTranscription_success_last [of snap tenv clock jobID]
  show ?thesis by blast
qed

lemma demo_runs_eval:
  "mkdirErr (demoEnv goodRun) = None"
  "snd (ExtractAudio (parseFloat (demoEnv goodRun)) (ffmpeg (demoEnv goodRun))) = None"
  "OutputPath (demoJob\<lparr>OutputPath := ''outputs/a1b2.mp3''\<rparr>) \<noteq> ''''"
  "snd (TranscribeAudio (whisperModel demoWhisperEnv) (whisper demoWhisperEnv)) = Some None"
  "txtExists demoWhisperEnv" "srtExists demoWhisperEnv"
  "map EvProgress (broadcastsOf (steps (runExtraction (demoEnv goodRun) int ''a1b2''
      (Some (demoJob\<lparr>OutputPath := ''outputs/a1b2.mp3''\<rparr>))))) = [1, 50, 100, 100, 100]"
  "map EvProgress (broadcastsOf (steps (runTranscription demoWhisperEnv int ''a1b2''
      (Some (demoJob\<lparr>OutputPath := ''outputs/a1b2.mp3''\<rparr>))))) = [1, 12, 100, 100]"
  by code_simp+

theorem progress_between_0_and_100_witness:
  "reachable demoSys7 \<and> sysJobs demoSys7 ''a1b2'' = Some demoFinalJob
   \<and> 0 \<le> Progress demoFinalJob \<and> Progress demoFinalJob \<le> 100
   \<and> 0 \<le> TranscriptProgress demoFinalJob \<and> TranscriptProgress demoFinalJob \<le> 100
   \<and> mkdirErr (demoEnv goodRun) = None
   \<and> snd (ExtractAudio (parseFloat (demoEnv goodRun)) (ffmpeg (demoEnv goodRun))) = None
   \<and> map EvProgress (broadcastsOf (steps (runExtraction (demoEnv goodRun) int ''a1b2''
        (Some (demoJob\<lparr>OutputPath := ''outputs/a1b2.mp3''\<rparr>))))) = [1, 50, 100, 100, 100]
   \<and> EvStatus (last (broadcastsOf (steps (runExtraction (demoEnv goodRun) int ''a1b2''
        (Some (demoJob\<lparr>OutputPath := ''outputs/a1b2.mp3''\<rparr>)))))) = StatusCompleted
   \<and> EvProgress (last (broadcastsOf (steps (runExtraction (demoEnv goodRun) int ''a1b2''
        (Some (demoJob\<lparr>OutputPath := ''outputs/a1b2.mp3''\<rparr>)))))) = 100
   \<and> OutputPath (demoJob\<lparr>OutputPath := ''outputs/a1b2.mp3''\<rparr>) \<noteq> ''''
   \<and> snd (TranscribeAudio (whisperModel demoWhisperEnv) (whisper demoWhisperEnv)) = Some None
   \<and> txtExists demoWhisperEnv \<and> srtExists demoWhisperEnv
   \<and> map EvProgress (broadcastsOf (steps (runTranscription demoWhisperEnv int ''a1b2''
        (Some (demoJob\<lparr>OutputPath := ''outputs/a1b2.mp3''\<rparr>))))) = [1, 12, 100, 100]
   \<and> EvStatus (last (broadcastsOf (steps (runTranscription demoWhisperEnv int ''a1b2''
        (Some (demoJob\<lparr>OutputPath := ''outputs/a1b2.mp3''\<rparr>)))))) = StatusCompleted
   \<and> EvProgress (last (broadcastsOf (steps (runTranscription demoWhisperEnv int ''a1b2''
        (Some (demoJob\<lparr>OutputPath := ''outputs/a1b2.mp3''\<rparr>)))))) = 100"
proof -
  note t = progress_between_0_and_100 [OF reachable_demoSys7 demoSys7_job,
      where env = "demoEnv goodRun" and tenv = demoWhisperEnv and clock = int
        and jobID = "''a1b2''" and snap = "demoJob\<lparr>OutputPath := ''outputs/a1b2.mp3''\<rparr>"]
  from t demo_runs_eval reachable_demoSys7 demoSys7_job show ?thesis by blast
qed

subsection \<open>UTF-8: decoding, trimming and lowering\<close>

text \<open>
  Facts about the string functions above that the sanitisers rest on: decoding is not
  affected by what follows a complete rune, a white-space rune survives encoding and
  decoding in both directions, and \<open>TrimLeftFunc\<close> and \<open>TrimRightFunc\<close> remove whole
  white-space runes only.
\<close>

lemma decodeRune_width: "1 \<le> snd (decodeRune (c # cs)) \<and> snd (decodeRune (c # cs)) \<le> length (c # cs)"
  by (auto simp: Let_def Suc_le_eq)

lemma decodeRune_append:
  assumes "b = [] \<or> RuneStart (hd b)"
  shows "decodeRune ((c # cs) @ b) = decodeRune (c # cs)"
proof (cases b)
  case Nil
  then show ?thesis by simp
next
  case (Cons x xs)
  then have x: "byte x < 0x80 \<or> 0xC0 \<le> byte x" using assms by (simp add: RuneStart_def)
  show ?thesis
  proof (cases cs)
    case Nil
    then show ?thesis using Cons x by (auto simp: Let_def)
  next
    case c1: (Cons b1 cs1)
    show ?thesis
    proof (cases cs1)
      case Nil
      then show ?thesis using Cons c1 x by (auto simp: Let_def)
    next
      case c2: (Cons b2 cs2)
      show ?thesis
      proof (cases cs2)
        case Nil
        then show ?thesis using Cons c1 c2 x by (auto simp: Let_def)
      next
        case c3: (Cons b3 cs3)
        then show ?thesis using Cons c1 c2 by (simp add: Let_def)
      qed
    qed
  qed
qed

lemma runes_append:
  assumes "b = [] \<or> RuneStart (hd b)"
  shows "runes (a @ b) = runes a @ runes b"
proof (induction a rule: runes.induct)
  case 1
  then show ?case by simp
next
  case (2 c cs)
  obtain r w where d: "decodeRune (c # cs) = (r, w)" by (cases "decodeRune (c # cs)")
  have w: "1 \<le> w" "w \<le> length (c # cs)" using decodeRune_width [of c cs] d by simp_all
  have "runes ((c # cs) @ b) = r # runes (drop (w - 1) (cs @ b))"
    using decodeRune_append [OF assms, of c cs] d by simp
  also have "drop (w - 1) (cs @ b) = drop (w - 1) cs @ b" using w by simp
  also have "runes (drop (w - 1) cs @ b) = runes (drop (w - 1) cs) @ runes b"
    using "2.IH" [OF d [symmetric]] by simp
  finally show ?case using d by simp
qed

lemma runes_ascii_char: "byte c < 0x80 \<Longrightarrow> runes (c # cs) = int (byte c) # runes cs"
  by simp

lemma stringsMap_ascii:
  "isASCII s \<Longrightarrow> stringsMap (unicodeToLower tbl) s = map asciiLower s"
proof (induction s)
  case Nil
  then show ?case by (simp add: stringsMap_def)
next
  case (Cons c s)
  then have c: "byte c < 0x80" and s: "isASCII s" by (simp_all add: isASCII_def)
  have "(let r = unicodeToLower tbl (int (byte c)) in if 0 \<le> r then encodeRune r else [])
        = [asciiLower c]"
  proof (cases "0x41 \<le> byte c \<and> byte c \<le> 0x5A")
    case True
    then have "unicodeToLower tbl (int (byte c)) = int (byte c + 0x20)"
      by (simp add: unicodeToLower_def)
    moreover have "encodeRune (int (byte c + 0x20)) = [char_of (byte c + 0x20)]"
      using True by (simp add: encodeRune_def del: of_nat_add)
    ultimately show ?thesis using True by (simp add: asciiLower_def Let_def)
  next
    case False
    then have "unicodeToLower tbl (int (byte c)) = int (byte c)"
      using c by (auto simp: unicodeToLower_def)
    moreover have "encodeRune (int (byte c)) = [c]"
      using c by (simp add: encodeRune_def byte_def)
    ultimately show ?thesis using False by (auto simp: asciiLower_def Let_def)
  qed
  then show ?case using Cons.IH [OF s] c
    by (simp add: stringsMap_def)
qed

lemma ToLower_stringsMap: "ToLower tbl s = stringsMap (unicodeToLower tbl) s"
  by (simp add: ToLower_def stringsMap_ascii)

lemma byte_char_of_int: "0 \<le> r \<Longrightarrow> r < 256 \<Longrightarrow> byte (char_of (r::int)) = nat r"
proof -
  assume a: "0 \<le> r" "r < 256"
  have "byte (char_of r) = nat (of_char (char_of r) :: int)"
    by (simp only: byte_def nat_of_char)
  also have "\<dots> = nat (r mod 256)" by (simp only: of_char_of)
  also have "\<dots> = nat r" using a by simp
  finally show ?thesis .
qed

lemma IsSpace_set:
  "IsSpace r \<longleftrightarrow>
    r \<in> set [0x09, 0x0A, 0x0B, 0x0C, 0x0D, 0x20, 0x85, 0xA0, 0x1680, 0x2000, 0x2001, 0x2002,
              0x2003, 0x2004, 0x2005, 0x2006, 0x2007, 0x2008, 0x2009, 0x200A, 0x2028, 0x2029,
              0x202F, 0x205F, 0x3000]"
  unfolding IsSpace_def by (simp only: list.set insert_iff empty_iff) arith

lemma decode_encode_space_list:
  "list_all (\<lambda>r. encodeRune r \<noteq> [] \<and> decodeRune (encodeRune r @ rest) = (r, length (encodeRune r)))
    [0x09, 0x0A, 0x0B, 0x0C, 0x0D, 0x20, 0x85, 0xA0, 0x1680, 0x2000, 0x2001, 0x2002,
              0x2003, 0x2004, 0x2005, 0x2006, 0x2007, 0x2008, 0x2009, 0x200A, 0x2028, 0x2029,
              0x202F, 0x205F, 0x3000]"
  by (simp add: encodeRune_def Let_def byte_char_of_int)

lemma decode_encode_space:
  assumes "IsSpace r"
  shows "encodeRune r \<noteq> [] \<and> decodeRune (encodeRune r @ rest) = (r, length (encodeRune r))"
  using assms decode_encode_space_list [of rest] unfolding IsSpace_set list_all_iff by blast

lemma decodeLast_encode_space_list:
  "list_all (\<lambda>r. decodeLastRune (z @ encodeRune r) = (r, length (encodeRune r)))
    [0x09, 0x0A, 0x0B, 0x0C, 0x0D, 0x20, 0x85, 0xA0, 0x1680, 0x2000, 0x2001, 0x2002,
              0x2003, 0x2004, 0x2005, 0x2006, 0x2007, 0x2008, 0x2009, 0x200A, 0x2028, 0x2029,
              0x202F, 0x205F, 0x3000]"
  by (simp add: encodeRune_def Let_def byte_char_of_int decodeLastRune_def lastRuneStart_def
        RuneStart_def nth_append)

lemma decodeLast_encode_space:
  assumes "IsSpace r"
  shows "decodeLastRune (z @ encodeRune r) = (r, length (encodeRune r))"
  using assms decodeLast_encode_space_list [of z] unfolding IsSpace_set list_all_iff by blast

lemma TrimLeft_encoded:
  assumes "IsSpace r"
  shows "TrimLeftFunc IsSpace (encodeRune r @ rest) = TrimLeftFunc IsSpace rest"
proof -
  from decode_encode_space [OF assms, of rest]
  obtain c cs where e: "encodeRune r = c # cs"
    and d: "decodeRune ((c # cs) @ rest) = (r, length (c # cs))"
    by (cases "encodeRune r") auto
  show ?thesis using assms d by (simp add: e)
qed

lemma TrimLeft_spaces:
  "list_all IsSpace ls
    \<Longrightarrow> TrimLeftFunc IsSpace (concat (map encodeRune ls) @ rest) = TrimLeftFunc IsSpace rest"
  by (induction ls) (simp_all add: TrimLeft_encoded)

lemma TrimLeft_stop:
  "byte c < 0x80 \<Longrightarrow> \<not> IsSpace (int (byte c)) \<Longrightarrow> TrimLeftFunc IsSpace (c # cs) = c # cs"
  by simp

lemma TrimRight_encoded:
  assumes "IsSpace r"
  shows "TrimRightFunc IsSpace (z @ encodeRune r) = TrimRightFunc IsSpace z"
proof -
  have ne: "encodeRune r \<noteq> []" using decode_encode_space [OF assms] by simp
  have d: "decodeLastRune (z @ encodeRune r) = (r, length (encodeRune r))"
    by (rule decodeLast_encode_space [OF assms])
  have t: "take (length z) (butlast (z @ encodeRune r)) = z"
    using ne by (simp add: butlast_append)
  show ?thesis
    by (subst TrimRightFunc.simps) (simp add: ne d assms t del: TrimRightFunc.simps)
qed

lemma TrimRight_spaces:
  "list_all IsSpace rs
    \<Longrightarrow> TrimRightFunc IsSpace (z @ concat (map encodeRune rs)) = TrimRightFunc IsSpace z"
proof (induction rs rule: rev_induct)
  case Nil
  then show ?case by simp
next
  case (snoc r rs)
  have "TrimRightFunc IsSpace (z @ concat (map encodeRune (rs @ [r])))
        = TrimRightFunc IsSpace ((z @ concat (map encodeRune rs)) @ encodeRune r)"
    by simp
  also have "\<dots> = TrimRightFunc IsSpace (z @ concat (map encodeRune rs))"
    using snoc.prems by (intro TrimRight_encoded) simp
  also have "\<dots> = TrimRightFunc IsSpace z" using snoc by simp
  finally show ?case .
qed

lemma TrimRight_stop:
  assumes "s \<noteq> []" and "byte (last s) < 0x80" and "\<not> IsSpace (int (byte (last s)))"
  shows "TrimRightFunc IsSpace s = s"
  by (subst TrimRightFunc.simps) (simp add: assms decodeLastRune_def del: TrimRightFunc.simps)

lemma TrimLeft_runes:
  "\<exists>ls. list_all IsSpace ls \<and> runes s = ls @ runes (TrimLeftFunc IsSpace s)"
proof (induction IsSpace s rule: TrimLeftFunc.induct)
  case 1
  then show ?case by simp
next
  case (2 c cs)
  obtain r w where d: "decodeRune (c # cs) = (r, w)" by (cases "decodeRune (c # cs)")
  show ?case
  proof (cases "IsSpace r")
    case True
    from "2.hyps" [OF d [symmetric] True]
    obtain ls where "list_all IsSpace ls"
      "runes (drop (w - 1) cs) = ls @ runes (TrimLeftFunc IsSpace (drop (w - 1) cs))"
      by blast
    then have "list_all IsSpace (r # ls)
        \<and> runes (c # cs) = (r # ls) @ runes (TrimLeftFunc IsSpace (c # cs))"
      using d True by simp
    then show ?thesis by blast
  next
    case False
    then have "list_all IsSpace [] \<and> runes (c # cs) = [] @ runes (TrimLeftFunc IsSpace (c # cs))"
      using d by simp
    then show ?thesis by blast
  qed
qed

lemma decodeRune_valid_start:
  assumes "decodeRune (c # cs) = (r, w)" and "r \<noteq> RuneError"
  shows "RuneStart c"
proof (cases "byte c < 0x80 \<or> 0xC2 \<le> byte c")
  case True
  then show ?thesis by (auto simp: RuneStart_def)
next
  case False
  then have "decodeRune (c # cs) = (RuneError, 1)" by (simp add: Let_def)
  then show ?thesis using assms by simp
qed

lemma not_IsSpace_RuneError: "\<not> IsSpace RuneError"
  by (simp add: IsSpace_def RuneError_def)

lemma decodeLast_runes:
  assumes "s \<noteq> []" and "decodeLastRune s = (r, w)" and "IsSpace r"
  shows "1 \<le> w \<and> w \<le> length s \<and> runes s = runes (take (length s - w) s) @ [r]"
proof (cases "byte (last s) < 0x80")
  case True
  then have rw: "r = int (byte (last s))" "w = 1"
    using assms by (simp_all add: decodeLastRune_def)
  have "runes (butlast s @ [last s]) = runes (butlast s) @ runes [last s]"
    using True by (intro runes_append) (simp add: RuneStart_def)
  then have "runes s = runes (butlast s) @ [r]"
    using assms(1) True rw by simp
  then show ?thesis using assms(1) rw by (simp add: butlast_conv_take Suc_le_eq)
next
  case False
  define start where "start = lastRuneStart s"
  obtain r' w' where d: "decodeRune (drop start s) = (r', w')"
    by (cases "decodeRune (drop start s)")
  have res: "(r, w) = (if start + w' \<noteq> length s then (RuneError, 1) else (r', w'))"
    using assms(1,2) False d by (simp add: decodeLastRune_def start_def Let_def)
  have ok: "start + w' = length s" "r = r'" "w = w'"
    using res assms(3) not_IsSpace_RuneError by (auto split: if_splits)
  have ne: "drop start s \<noteq> []"
  proof
    assume "drop start s = []"
    then have "r' = RuneError" using d by simp
    then show False using ok assms(3) not_IsSpace_RuneError by simp
  qed
  then obtain c0 cs0 where chunk: "drop start s = c0 # cs0" by (cases "drop start s") auto
  have lt: "start < length s" using ne by simp
  have len: "length (c0 # cs0) = w"
    using ok chunk [symmetric] lt by simp
  have rs: "RuneStart c0"
    using decodeRune_valid_start [of c0 cs0 r w] d chunk ok assms(3) not_IsSpace_RuneError
    by auto
  have "runes (take start s @ (c0 # cs0)) = runes (take start s) @ runes (c0 # cs0)"
    using rs by (intro runes_append) simp
  moreover have "runes (c0 # cs0) = [r]"
    using d chunk ok len by simp
  ultimately have "runes s = runes (take start s) @ [r]"
    using chunk [symmetric] by simp
  moreover have "length s - w = start" using ok by simp
  ultimately show ?thesis using len ok lt by simp
qed

lemma TrimRight_runes:
  "\<exists>rs. list_all IsSpace rs \<and> runes s = runes (TrimRightFunc IsSpace s) @ rs"
proof (induction IsSpace s rule: TrimRightFunc.induct)
  case (1 s)
  show ?case
  proof (cases "s = []")
    case True
    then show ?thesis by simp
  next
    case False
    obtain r w where d: "decodeLastRune s = (r, w)" by (cases "decodeLastRune s")
    show ?thesis
    proof (cases "IsSpace r")
      case True
      note dr = decodeLast_runes [OF False d True]
      have tk: "take (length s - w) (butlast s) = take (length s - w) s"
        using dr by (auto simp: butlast_conv_take min_def)
      from "1.hyps" [OF False d [symmetric] True]
      obtain rs where rs: "list_all IsSpace rs"
        "runes (take (length s - w) (butlast s))
          = runes (TrimRightFunc IsSpace (take (length s - w) (butlast s))) @ rs"
        by blast
      have step: "TrimRightFunc IsSpace s = TrimRightFunc IsSpace (take (length s - w) (butlast s))"
        by (subst TrimRightFunc.simps) (simp add: False d True del: TrimRightFunc.simps)
      have "list_all IsSpace (rs @ [r]) \<and> runes s = runes (TrimRightFunc IsSpace s) @ (rs @ [r])"
        using rs dr True by (simp add: step tk del: TrimRightFunc.simps)
      then show ?thesis by blast
    next
      case no: False
      have "TrimRightFunc IsSpace s = s"
        by (subst TrimRightFunc.simps) (simp add: False d no del: TrimRightFunc.simps)
      then have "list_all IsSpace [] \<and> runes s = runes (TrimRightFunc IsSpace s) @ []"
        by (simp del: TrimRightFunc.simps)
      then show ?thesis by blast
    qed
  qed
qed

text \<open>
  Lowering and trimming commute on a string whose trimmed, lowered form begins and ends
  with an ASCII character that is not white space, as long as the case table leaves the
  white-space runes alone.
\<close>

lemma lower_fixes_space:
  assumes "\<forall>r. IsSpace r \<longrightarrow> tbl r = r" and "IsSpace r"
  shows "(let r' = unicodeToLower tbl r in if 0 \<le> r' then encodeRune r' else []) = encodeRune r"
proof -
  have t: "tbl r = r" using assms by blast
  have r: "0 \<le> r \<and> \<not> (0x41 \<le> r \<and> r \<le> 0x5A)"
    using assms(2) unfolding IsSpace_def by arith
  have "unicodeToLower tbl r = r"
    using r by (simp add: unicodeToLower_def t)
  then show ?thesis using r by simp
qed

lemma lowered_trim:
  assumes sp: "\<forall>r. IsSpace r \<longrightarrow> tbl r = r"
    and t: "t \<noteq> ''''" "byte (hd t) < 0x80" "\<not> IsSpace (int (byte (hd t)))"
      "byte (last t) < 0x80" "\<not> IsSpace (int (byte (last t)))"
    and v: "ToLower tbl (TrimSpace v) = t"
  shows "TrimSpace (ToLower tbl v) = t"
proof -
  define f where "f = unicodeToLower tbl"
  define g where "g = (\<lambda>c. let r = f c in if 0 \<le> r then encodeRune r else [])"
  define x where "x = TrimLeftFunc IsSpace v"
  define w where "w = TrimRightFunc IsSpace x"
  obtain ls where ls: "list_all IsSpace ls" "runes v = ls @ runes x"
    using TrimLeft_runes [of v] unfolding x_def by blast
  obtain rs where rs: "list_all IsSpace rs" "runes x = runes w @ rs"
    using TrimRight_runes [of x] unfolding w_def by blast
  have gs: "concat (map g zs) = concat (map encodeRune zs)" if "list_all IsSpace zs" for zs
  proof -
    have "map g zs = map encodeRune zs"
      using that lower_fixes_space [OF sp] by (simp add: g_def f_def list_all_iff)
    then show ?thesis by (simp only:)
  qed
  have "stringsMap f w = ToLower tbl w" by (simp add: ToLower_stringsMap f_def)
  also have "\<dots> = t" using v by (simp only: TrimSpace_def w_def x_def)
  finally have mw: "concat (map g (runes w)) = t" by (simp add: stringsMap_def g_def)
  have "ToLower tbl v = concat (map g (runes v))"
    by (simp add: ToLower_stringsMap stringsMap_def g_def f_def)
  also have "\<dots> = concat (map encodeRune ls) @ (t @ concat (map encodeRune rs))"
    using ls(2) rs(2) mw gs [OF ls(1)] gs [OF rs(1)] by simp
  finally have low: "ToLower tbl v = concat (map encodeRune ls) @ (t @ concat (map encodeRune rs))" .
  obtain c cs where tc: "t = c # cs" using t(1) by (cases t) auto
  have "TrimLeftFunc IsSpace (ToLower tbl v) = TrimLeftFunc IsSpace (t @ concat (map encodeRune rs))"
    unfolding low using ls(1) by (rule TrimLeft_spaces)
  also have "\<dots> = t @ concat (map encodeRune rs)"
    using t(2,3) unfolding tc by simp
  finally have "TrimSpace (ToLower tbl v) = TrimRightFunc IsSpace (t @ concat (map encodeRune rs))"
    by (simp only: TrimSpace_def)
  also have "\<dots> = TrimRightFunc IsSpace t" using rs(1) by (rule TrimRight_spaces)
  also have "\<dots> = t" using t(1,4,5) by (rule TrimRight_stop)
  finally show ?thesis .
qed

subsection \<open>Sanitised file names\<close>

lemma keepRune_range:
  "(0x61 \<le> keepRune r \<and> keepRune r \<le> 0x7A) \<or> (0x41 \<le> keepRune r \<and> keepRune r \<le> 0x5A)
    \<or> (0x30 \<le> keepRune r \<and> keepRune r \<le> 0x39) \<or> keepRune r = 0x2E \<or> keepRune r = 0x5F
    \<or> keepRune r = 0x2D"
  by (auto simp: keepRune_def)

lemma encode_keepRune:
  "encodeRune (keepRune r) = [char_of (keepRune r)] \<and> allowedChar (char_of (keepRune r))"
proof -
  have b: "0 \<le> keepRune r" "keepRune r < 256" "keepRune r \<le> 0x7F"
    using keepRune_range [of r] by auto
  have "byte (char_of (keepRune r)) = nat (keepRune r)"
    using b by (simp add: byte_char_of_int)
  moreover have "(char_of (keepRune r) = CHR ''.'') = (keepRune r = 0x2E)"
    "(char_of (keepRune r) = CHR ''_'') = (keepRune r = 0x5F)"
    "(char_of (keepRune r) = CHR ''-'') = (keepRune r = 0x2D)"
    using b by (auto simp: char_of_eq_iff take_bit_eq_mod)
  ultimately have "allowedChar (char_of (keepRune r))"
    using keepRune_range [of r] by (auto simp: allowedChar_def)
  then show ?thesis using b by (simp add: encodeRune_def)
qed

lemma stringsMap_keepRune:
  "stringsMap keepRune s = map (\<lambda>r. char_of (keepRune r)) (runes s)"
proof -
  have "(\<lambda>c. let r = keepRune c in if 0 \<le> r then encodeRune r else [])
        = (\<lambda>c. [char_of (keepRune c)])"
  proof
    fix c
    have "0 \<le> keepRune c" using keepRune_range [of c] by auto
    then show "(let r = keepRune c in if 0 \<le> r then encodeRune r else []) = [char_of (keepRune c)]"
      using encode_keepRune [of c] by (simp add: Let_def)
  qed
  then show ?thesis by (simp add: stringsMap_def)
qed

lemma runes_nonempty: "s \<noteq> [] \<Longrightarrow> runes s \<noteq> []"
  by (cases s) (simp_all split: prod.splits)

lemma Base_nonempty: "Base path \<noteq> ''''"
  by (simp add: Base_def Let_def)

text \<open>
  C9. For every input string \<open>sanitizeFileName\<close> returns a name that is not empty and
  holds only ASCII letters, digits, \<open>.\<close>, \<open>_\<close> and \<open>-\<close>, in particular no path
  separator: it is the last path element of the trimmed input (\<open>filepath.Base\<close>), with
  every space and then every other rune replaced by \<open>_\<close>. \<open>filepath.Base\<close> never returns
  the empty string, so the name is this mapped string and the branch that answers
  \<open>video.bin\<close> for an empty one is never taken. The job that \<open>upload\<close> builds stores
  this name, and its input path is \<open>uploadsDir\<close> joined with the single element
  \<open>jobID_name\<close>; that element is neither \<open>.\<close> nor \<open>..\<close> and has a separator only if the
  job identifier has one.
\<close>

theorem sanitizeFileName_safe:
  "sanitizeFileName name \<noteq> ''''
   \<and> list_all allowedChar (sanitizeFileName name)
   \<and> CHR ''/'' \<notin> set (sanitizeFileName name)
   \<and> sanitizeFileName name = stringsMap keepRune (ReplaceSpaces (Base (TrimSpace name)))
   \<and> InputFileName (newJob tbl Join uploadsDir now jobID name formatValue qualityValue)
       = sanitizeFileName name
   \<and> InputPath (newJob tbl Join uploadsDir now jobID name formatValue qualityValue)
       = Join uploadsDir (jobID @ ''_'' @ sanitizeFileName name)
   \<and> jobID @ ''_'' @ sanitizeFileName name \<notin> set [''.'', ''..'']
   \<and> (CHR ''/'' \<in> set (jobID @ ''_'' @ sanitizeFileName name)) = (CHR ''/'' \<in> set jobID)"
proof -
  define mapped where "mapped = stringsMap keepRune (ReplaceSpaces (Base (TrimSpace name)))"
  have "ReplaceSpaces (Base (TrimSpace name)) \<noteq> ''''"
    using Base_nonempty [of "TrimSpace name"] by (simp add: ReplaceSpaces_def)
  then have ne: "mapped \<noteq> ''''"
    using runes_nonempty by (simp add: mapped_def stringsMap_keepRune)
  then have eq: "sanitizeFileName name = mapped"
    by (simp add: sanitizeFileName_def Let_def mapped_def)
  have allowed: "list_all allowedChar mapped"
    using encode_keepRune by (simp add: mapped_def stringsMap_keepRune list_all_iff)
  have "\<not> allowedChar (CHR ''/'')" by (simp add: allowedChar_def byte_def)
  then have slash: "CHR ''/'' \<notin> set mapped"
    using allowed by (auto simp: list_all_iff)
  have "CHR ''_'' \<in> set (jobID @ ''_'' @ mapped)" by simp
  moreover have "CHR ''_'' \<notin> set ''.''" "CHR ''_'' \<notin> set ''..''" by simp_all
  ultimately have element: "jobID @ ''_'' @ mapped \<notin> set [''.'', ''..'']"
    by (metis empty_iff empty_set set_ConsD)
  have inside: "(CHR ''/'' \<in> set (jobID @ ''_'' @ mapped)) = (CHR ''/'' \<in> set jobID)"
    using slash by simp
  have job: "InputFileName (newJob tbl Join uploadsDir now jobID name formatValue qualityValue)
       = sanitizeFileName name"
    "InputPath (newJob tbl Join uploadsDir now jobID name formatValue qualityValue)
       = Join uploadsDir (jobID @ ''_'' @ sanitizeFileName name)"
    by (simp_all add: newJob_def Let_def)
  show ?thesis
    unfolding job unfolding eq using ne allowed slash element inside
    by (simp only: mapped_def [symmetric] simp_thms)
qed

lemma sanitizeFileName_examples:
  "sanitizeFileName ''../../etc/passwd'' = ''passwd''"
  "sanitizeFileName '' my video (1).mp4 '' = ''my_video__1_.mp4''"
  "sanitizeFileName '''' = ''.''"
  "sanitizeFileName ([CHR 0xC3, CHR 0xA9] @ ''.mp4'') = ''_.mp4''"
  by code_simp+

theorem sanitizeFileName_safe_witness:
  "sanitizeFileName ''../../etc/passwd'' = ''passwd''
   \<and> ''passwd'' \<noteq> '''' \<and> list_all allowedChar ''passwd'' \<and> CHR ''/'' \<notin> set ''passwd''
   \<and> InputFileName (newJob (\<lambda>r. r) (\<lambda>d f. d @ ''/'' @ f) ''uploads'' 0 ''a1b2''
         ''../../etc/passwd'' ''mp3'' ''medium'') = ''passwd''
   \<and> InputPath (newJob (\<lambda>r. r) (\<lambda>d f. d @ ''/'' @ f) ''uploads'' 0 ''a1b2''
         ''../../etc/passwd'' ''mp3'' ''medium'') = ''uploads/a1b2_passwd''
   \<and> ''a1b2_passwd'' \<notin> set [''.'', ''..'']"
proof -
  have e: "sanitizeFileName ''../../etc/passwd'' = ''passwd''"
    by (rule sanitizeFileName_examples)
  from sanitizeFileName_safe
         [where name = "''../../etc/passwd''" and tbl = "\<lambda>r. r" and Join = "\<lambda>d f. d @ ''/'' @ f"
            and uploadsDir = "''uploads''" and now = 0 and jobID = "''a1b2''"
            and formatValue = "''mp3''" and qualityValue = "''medium''"]
  show ?thesis unfolding e by simp
qed

subsection \<open>Sanitised formats and qualities\<close>

lemma literal_ends:
  "list_all (\<lambda>t. t \<noteq> [] \<and> byte (hd t) < 0x80 \<and> \<not> IsSpace (int (byte (hd t)))
                \<and> byte (last t) < 0x80 \<and> \<not> IsSpace (int (byte (last t))))
     (supportedFormats @ supportedQualities)"
  by (simp add: supportedFormats_def supportedQualities_def byte_def IsSpace_def)

lemma lower_literals:
  "list_all (\<lambda>t. ToLower tbl t = t) (supportedFormats @ supportedQualities)"
  by (simp add: supportedFormats_def supportedQualities_def ToLower_def isASCII_def
        asciiLower_def byte_def)

lemma normalised_lowered:
  assumes sp: "\<forall>r. IsSpace r \<longrightarrow> tbl r = r"
    and t: "ToLower tbl (TrimSpace v) \<in> set (supportedFormats @ supportedQualities)"
  shows "ToLower tbl (TrimSpace (ToLower tbl v)) = ToLower tbl (TrimSpace v)"
proof -
  define t where "t = ToLower tbl (TrimSpace v)"
  have m: "t \<in> set (supportedFormats @ supportedQualities)" using assms(2) by (simp only: t_def)
  have e: "t \<noteq> [] \<and> byte (hd t) < 0x80 \<and> \<not> IsSpace (int (byte (hd t)))
                \<and> byte (last t) < 0x80 \<and> \<not> IsSpace (int (byte (last t)))"
    using literal_ends m unfolding list_all_iff by blast
  have l: "ToLower tbl t = t"
    using lower_literals [of tbl] m unfolding list_all_iff by blast
  have "TrimSpace (ToLower tbl v) = t"
    using sp e t_def [symmetric] by (intro lowered_trim) simp_all
  then show ?thesis using l by (simp only: t_def)
qed

lemma sanitizeFormat_normal:
  assumes "\<forall>r. IsSpace r \<longrightarrow> tbl r = r"
  shows "ToLower tbl (TrimSpace (sanitizeFormat tbl v)) \<in> set supportedFormats"
proof (cases "ToLower tbl (TrimSpace v) \<in> set supportedFormats")
  case True
  then have "ToLower tbl (TrimSpace (ToLower tbl v)) = ToLower tbl (TrimSpace v)"
    using assms by (intro normalised_lowered) simp_all
  then show ?thesis using True by (simp add: sanitizeFormat_def)
next
  case False
  then show ?thesis
    by (simp add: sanitizeFormat_def normal_form_literals) (simp add: supportedFormats_def)
qed

lemma sanitizeQuality_normal:
  assumes "\<forall>r. IsSpace r \<longrightarrow> tbl r = r"
  shows "ToLower tbl (TrimSpace (sanitizeQuality tbl v)) \<in> set supportedQualities"
proof (cases "ToLower tbl (TrimSpace v) \<in> set supportedQualities")
  case True
  then have "ToLower tbl (TrimSpace (ToLower tbl v)) = ToLower tbl (TrimSpace v)"
    using assms by (intro normalised_lowered) simp_all
  then show ?thesis using True by (simp add: sanitizeQuality_def)
next
  case False
  then show ?thesis
    by (simp add: sanitizeQuality_def normal_form_literals) (simp add: supportedQualities_def)
qed

lemma supported_not_copy:
  "ToLower tbl (TrimSpace f) \<in> set supportedFormats
    \<Longrightarrow> codecAndQualityArgs tbl f q \<noteq> [''-codec:a'', ''copy'']"
  by (auto simp: codecAndQualityArgs_def supportedFormats_def Let_def)

text \<open>
  C10. Let the case table behind \<open>strings.ToLower\<close> leave the white-space runes alone,
  as Unicode's does. Then for every input the trimmed, lowered form of what
  \<open>sanitizeFormat\<close> returns is one of \<open>mp3\<close>, \<open>wav\<close>, \<open>aac\<close>, \<open>flac\<close> and \<open>ogg\<close>, and an
  input whose trimmed, lowered form is none of them yields \<open>mp3\<close>; the trimmed, lowered
  form of what \<open>sanitizeQuality\<close> returns is one of \<open>low\<close>, \<open>medium\<close>, \<open>high\<close> and
  \<open>original\<close>, and an unrecognised input yields \<open>medium\<close>. The job that \<open>upload\<close> stores
  carries these two values, and \<open>codecAndQualityArgs\<close> on them is not the copy
  configuration.
\<close>

theorem sanitized_values_supported:
  assumes "\<forall>r. IsSpace r \<longrightarrow> tbl r = r"
  shows "ToLower tbl (TrimSpace (sanitizeFormat tbl fv)) \<in> set supportedFormats
    \<and> (ToLower tbl (TrimSpace fv) \<notin> set supportedFormats \<longrightarrow> sanitizeFormat tbl fv = ''mp3'')
    \<and> ToLower tbl (TrimSpace (sanitizeQuality tbl qv)) \<in> set supportedQualities
    \<and> (ToLower tbl (TrimSpace qv) \<notin> set supportedQualities \<longrightarrow> sanitizeQuality tbl qv = ''medium'')
    \<and> upload tbl Join dir now jobID name fv qv jobs jobID
        = Some (newJob tbl Join dir now jobID name fv qv)
    \<and> Format (newJob tbl Join dir now jobID name fv qv) = sanitizeFormat tbl fv
    \<and> Quality (newJob tbl Join dir now jobID name fv qv) = sanitizeQuality tbl qv
    \<and> codecAndQualityArgs tbl (Format (newJob tbl Join dir now jobID name fv qv))
          (Quality (newJob tbl Join dir now jobID name fv qv)) \<noteq> [''-codec:a'', ''copy'']"
proof -
  have f: "ToLower tbl (TrimSpace (sanitizeFormat tbl fv)) \<in> set supportedFormats"
    using assms by (rule sanitizeFormat_normal)
  have q: "ToLower tbl (TrimSpace (sanitizeQuality tbl qv)) \<in> set supportedQualities"
    using assms by (rule sanitizeQuality_normal)
  have j: "Format (newJob tbl Join dir now jobID name fv qv) = sanitizeFormat tbl fv"
    "Quality (newJob tbl Join dir now jobID name fv qv) = sanitizeQuality tbl qv"
    by (simp_all add: newJob_def Let_def)
  have u: "upload tbl Join dir now jobID name fv qv jobs jobID
        = Some (newJob tbl Join dir now jobID name fv qv)"
    by (simp add: upload_def)
  have c: "codecAndQualityArgs tbl (sanitizeFormat tbl fv) (sanitizeQuality tbl qv)
      \<noteq> [''-codec:a'', ''copy'']"
    using f by (rule supported_not_copy)
  have d: "ToLower tbl (TrimSpace fv) \<notin> set supportedFormats \<longrightarrow> sanitizeFormat tbl fv = ''mp3''"
    "ToLower tbl (TrimSpace qv) \<notin> set supportedQualities \<longrightarrow> sanitizeQuality tbl qv = ''medium''"
    by (simp_all add: sanitizeFormat_def sanitizeQuality_def)
  show ?thesis unfolding j using f q u c d by blast
qed

lemma sanitize_examples:
  "sanitizeFormat (\<lambda>r. r) '' FLAC '' = '' flac ''"
  "TrimSpace '' flac '' = ''flac''"
  "ToLower (\<lambda>r. r) (TrimSpace ''opus'') = ''opus''"
  "ToLower (\<lambda>r. r) (TrimSpace ''best'') = ''best''"
  "sanitizeQuality (\<lambda>r. r) ''High'' = ''high''"
  by code_simp+

theorem sanitized_values_supported_witness:
  "sanitizeFormat (\<lambda>r. r) '' FLAC '' = '' flac ''
   \<and> ToLower (\<lambda>r. r) (TrimSpace (sanitizeFormat (\<lambda>r. r) '' FLAC '')) \<in> set supportedFormats
   \<and> ToLower (\<lambda>r. r) (TrimSpace ''opus'') \<notin> set supportedFormats
   \<and> sanitizeFormat (\<lambda>r. r) ''opus'' = ''mp3''
   \<and> ToLower (\<lambda>r. r) (TrimSpace ''best'') \<notin> set supportedQualities
   \<and> sanitizeQuality (\<lambda>r. r) ''best'' = ''medium''
   \<and> codecAndQualityArgs (\<lambda>r. r)
         (Format (newJob (\<lambda>r. r) (\<lambda>d f. d @ ''/'' @ f) ''uploads'' 0 ''j1'' ''a.mp4'' '' FLAC '' ''best''))
         (Quality (newJob (\<lambda>r. r) (\<lambda>d f. d @ ''/'' @ f) ''uploads'' 0 ''j1'' ''a.mp4'' '' FLAC '' ''best''))
       \<noteq> [''-codec:a'', ''copy'']"
proof -
  have sp: "\<forall>r. IsSpace r \<longrightarrow> (\<lambda>r. r) r = r" by simp
  note a = sanitized_values_supported
      [where tbl = "\<lambda>r. r" and fv = "'' FLAC ''" and qv = "''best''"
         and Join = "\<lambda>d f. d @ ''/'' @ f" and dir = "''uploads''" and now = 0
         and jobID = "''j1''" and name = "''a.mp4''" and jobs = "Map.empty", OF sp]
  note b = sanitized_values_supported
      [where tbl = "\<lambda>r. r" and fv = "''opus''" and qv = "''best''"
         and Join = "\<lambda>d f. d @ ''/'' @ f" and dir = "''uploads''" and now = 0
         and jobID = "''j1''" and name = "''a.mp4''" and jobs = "Map.empty", OF sp]
  have n: "ToLower (\<lambda>r. r) (TrimSpace ''opus'') \<notin> set supportedFormats"
    "ToLower (\<lambda>r. r) (TrimSpace ''best'') \<notin> set supportedQualities"
    unfolding sanitize_examples by (simp_all add: supportedFormats_def supportedQualities_def)
  have e: "sanitizeFormat (\<lambda>r. r) '' FLAC '' = '' flac ''" by (rule sanitize_examples)
  show ?thesis using a b n e by blast
qed

end
